theory Spec2Isabelle
  imports Main "HOL-Library.Sublist"
begin

section \<open>Strings\<close>

text \<open>
  The script is JavaScript; its strings are modelled as \<open>string\<close>, restricted to ASCII
  text. The built-in string methods the reconciliation code calls are written out below.
\<close>

definition toLowerChar :: "char \<Rightarrow> char" where
  "toLowerChar c =
     (case map_of (zip ''ABCDEFGHIJKLMNOPQRSTUVWXYZ'' ''abcdefghijklmnopqrstuvwxyz'') c of
        None \<Rightarrow> c
      | Some d \<Rightarrow> d)"

definition toLowerCase :: "string \<Rightarrow> string" where
  "toLowerCase s = map toLowerChar s"

definition isWhiteSpace :: "char \<Rightarrow> bool" where
  "isWhiteSpace c = (c \<in> set [CHR 0x20, CHR 0x09, CHR 0x0A, CHR 0x0B, CHR 0x0C, CHR 0x0D])"

definition trim :: "string \<Rightarrow> string" where
  "trim s = rev (dropWhile isWhiteSpace (rev (dropWhile isWhiteSpace s)))"

definition startsWith :: "string \<Rightarrow> string \<Rightarrow> bool" where
  "startsWith s p = (take (length p) s = p)"

definition endsWith :: "string \<Rightarrow> string \<Rightarrow> bool" where
  "endsWith s p = (length p \<le> length s \<and> drop (length s - length p) s = p)"

fun includes_str :: "string \<Rightarrow> string \<Rightarrow> bool" where
  "includes_str [] sub = (sub = [])"
| "includes_str (c # cs) sub = (startsWith (c # cs) sub \<or> includes_str cs sub)"

fun split_str :: "char \<Rightarrow> string \<Rightarrow> string list" where
  "split_str sep [] = [[]]"
| "split_str sep (c # cs) =
     (if c = sep then [] # split_str sep cs
      else (case split_str sep cs of
              [] \<Rightarrow> [[c]]
            | p # ps \<Rightarrow> (c # p) # ps))"

text \<open>\<open>s.split('/').pop()\<close>: the text after the last slash.\<close>

definition lastSegment :: "string \<Rightarrow> string" where
  "lastSegment s = rev (takeWhile (\<lambda>c. c \<noteq> CHR ''/'') (rev s))"

text \<open>
  JavaScript truthiness of a value that is a string, \<open>null\<close> or \<open>undefined\<close>:
  only a non-empty string is truthy.
\<close>

fun truthy :: "string option \<Rightarrow> bool" where
  "truthy None = False"
| "truthy (Some s) = (s \<noteq> [])"

section \<open>Data model\<close>

text \<open>The status names of \<open>CONFIG.icons\<close>, which are also the verdicts shown on a row.\<close>

datatype verdict = Match | Mismatch | Missing | Partial | Unknown | Loading

text \<open>
  One file of the \<open>/api/check/repo\<close> payload, with the fields the reconciliation code
  reads. The status is the string the server sent. The code reads \<open>path\<close> and
  \<open>sha256\<close> behind a test of their presence and \<open>filename\<close> without one; \<open>None\<close> is
  a field that the payload does not have.
\<close>

record manifest_entry =
  me_path :: "string option"
  me_filename :: string
  me_sha256 :: "string option"
  me_status :: string

record folder_status =
  fs_status :: verdict
  fs_found :: nat
  fs_missing :: nat
  fs_mismatch :: nat
  fs_total :: nat

section \<open>Folder aggregation\<close>

text \<open>\<open>f.path || f.filename\<close>\<close>

definition filePath :: "manifest_entry \<Rightarrow> string" where
  "filePath f = (if truthy (me_path f) then (case me_path f of Some p \<Rightarrow> p | None \<Rightarrow> []) else me_filename f)"

definition calculateFolderStatus :: "string \<Rightarrow> manifest_entry list \<Rightarrow> folder_status" where
  "calculateFolderStatus folderPath allFiles =
     (let filesInFolder =
            filter (\<lambda>f. startsWith (filePath f) (folderPath @ ''/'') \<or> filePath f = folderPath) allFiles
      in if length filesInFolder = 0
         then \<lparr>fs_status = Unknown, fs_found = 0, fs_missing = 0, fs_mismatch = 0, fs_total = 0\<rparr>
         else
           (let found = length (filter (\<lambda>f. me_status f = ''found'') filesInFolder);
                missing = length (filter (\<lambda>f. me_status f = ''missing'') filesInFolder);
                mismatch = length (filter (\<lambda>f. me_status f = ''mismatch'') filesInFolder);
                total = length filesInFolder;
                status =
                  (if found = total then Match
                   else if missing = total then Missing
                   else if found > 0 \<or> mismatch > 0 then Partial
                   else Missing)
            in \<lparr>fs_status = status, fs_found = found, fs_missing = missing,
                fs_mismatch = mismatch, fs_total = total\<rparr>))"

text \<open>
  The folder classification as the specification words it: the entries are selected by
  their \<open>path\<close> alone, and every folder that is neither all found nor all missing is
  partial.
\<close>

definition specFolderVerdict :: "string \<Rightarrow> manifest_entry list \<Rightarrow> verdict" where
  "specFolderVerdict folderPath allFiles =
     (let selected =
            filter (\<lambda>f. case me_path f of
                           None \<Rightarrow> False
                         | Some p \<Rightarrow> p = folderPath \<or> prefix (folderPath @ ''/'') p) allFiles
      in if selected = [] then Unknown
         else if list_all (\<lambda>f. me_status f = ''found'') selected then Match
         else if list_all (\<lambda>f. me_status f = ''missing'') selected then Missing
         else Partial)"

section \<open>Session state, page and server\<close>

text \<open>
  One entry of the \<open>results\<close> object of a \<open>/api/check/batch\<close> response. The object is
  read as the map from its own keys to its entries.
\<close>

record lookup_entry =
  found :: bool
  mismatch :: bool
  directories :: "string list"

type_synonym results_map = "string \<Rightarrow> lookup_entry option"

record batch_response =
  results :: "results_map option"

text \<open>The \<open>/api/check/repo\<close> payload that \<open>state.repoData\<close> caches.\<close>

record repo_data =
  repo_id :: string
  files :: "manifest_entry list option"
  rd_found :: nat
  rd_missing :: nat
  rd_mismatch :: nat
  total_files :: nat

record server_status =
  cache_total_files :: nat

record scan_stats =
  matches :: nat
  mismatches :: nat
  missing :: nat
  total_count :: nat

record repo_info =
  repoId :: string
  repoType :: string
  revision :: string
  url :: string

record repo_request =
  rq_repo_id :: string
  rq_repo_type :: string
  rq_revision :: string

record batch_file =
  bf_filename :: string
  bf_fullPath :: "string option"
  bf_sha256 :: "string option"

text \<open>
  The local inventory server, as the three requests of a pass see it. Every request
  settles; \<open>None\<close> is a request whose promise rejects (HTTP error, network error,
  timeout).
\<close>

record server =
  apiStatus :: "server_status option"
  apiCheckRepo :: "repo_request \<Rightarrow> repo_data option"
  apiCheckBatch :: "batch_file list \<Rightarrow> batch_response option"

datatype js_error = URIError

text \<open>What \<open>decodeURIComponent\<close> does with a piece of a link: it throws or decodes.\<close>

datatype uri = Malformed | Decoded string

text \<open>
  The page is the sequence, in document order, of the rows that hold a file link and of the
  rows that hold a folder link; every row is its own container element and holds one link,
  inside which the icon is placed. Of a file link the model keeps what the two detection
  methods of \<open>findAllFileRows\<close> extract from its \<open>href\<close>: \<open>blobPath\<close> is present when
  the link passes the \<open>href\<close> tests of the first method (a \<open>/blob/\<close> link that is no
  \<open>/tree/\<close> link) and is the decoding of the path after the branch name; \<open>linkName\<close> is
  present when the link is one the second method looks at and is the decoding of the last
  segment of its \<open>href\<close>.
\<close>

record file_elem =
  blobPath :: "uri option"
  linkName :: "uri option"
  hfcProcessed :: bool
  hfcIcon :: "verdict option"

record folder_elem =
  treePath :: string
  treeName :: uri
  hfcFolderProcessed :: bool
  hfcFolderIcon :: "verdict option"

text \<open>The objects that the detection pushes; \<open>element\<close> is the position of the row in the page.\<close>

record file_row =
  filename :: string
  fullPath :: "string option"
  sha256 :: "string option"
  element :: nat

record folder_row =
  fr_folderName :: string
  fr_folderPath :: string
  fr_element :: nat

text \<open>
  The mutable state of the script: the \<open>state\<close> object, the \<open>isScanning\<close> flag, the
  location of the window and the page.
\<close>

record scan_state =
  connected :: bool
  serverInfo :: "server_status option"
  repoData :: "repo_data option"
  lastUrl :: "string option"
  stats :: scan_stats
  isScanning :: bool
  pathname :: string
  href :: string
  fileElems :: "file_elem list"
  folderElems :: "folder_elem list"

section \<open>API functions\<close>

definition checkServerStatus :: "server \<Rightarrow> scan_state \<Rightarrow> bool \<times> scan_state" where
  "checkServerStatus io s =
     (case apiStatus io of
        Some status \<Rightarrow> (True, s\<lparr>connected := True, serverInfo := Some status\<rparr>)
      | None \<Rightarrow> (False, s\<lparr>connected := False, serverInfo := None\<rparr>))"

definition checkFiles :: "server \<Rightarrow> batch_file list \<Rightarrow> scan_state \<Rightarrow> results_map option" where
  "checkFiles io fs s =
     (if \<not> connected s then None
      else (case apiCheckBatch io fs of
              Some response \<Rightarrow> results response
            | None \<Rightarrow> None))"

section \<open>File and folder detection\<close>

text \<open>The first method of \<open>findAllFileRows\<close>: the loop over the \<open>/blob/\<close> links.\<close>

fun forEachBlobLink :: "nat \<Rightarrow> file_elem list \<Rightarrow> (js_error + file_row list) \<times> file_elem list" where
  "forEachBlobLink i [] = (Inr [], [])"
| "forEachBlobLink i (e # es) =
     (case blobPath e of
        None \<Rightarrow> (case forEachBlobLink (Suc i) es of (r, es') \<Rightarrow> (r, e # es'))
      | Some Malformed \<Rightarrow> (Inl URIError, e # es)
      | Some (Decoded decodedPath) \<Rightarrow>
          (if lastSegment decodedPath = [] \<or> includes_str (lastSegment decodedPath) ''..''
              \<or> hfcProcessed e
           then (case forEachBlobLink (Suc i) es of (r, es') \<Rightarrow> (r, e # es'))
           else (case forEachBlobLink (Suc i) es of
                   (Inl err, es') \<Rightarrow> (Inl err, e\<lparr>hfcProcessed := True\<rparr> # es')
                 | (Inr rows, es') \<Rightarrow>
                     (Inr (\<lparr>filename = lastSegment decodedPath, fullPath = Some decodedPath,
                            sha256 = None, element = i\<rparr> # rows),
                      e\<lparr>hfcProcessed := True\<rparr> # es'))))"

text \<open>The second method: the loop over the links whose class contains \<open>Link\<close>.\<close>

fun forEachLinkClass :: "nat \<Rightarrow> file_elem list \<Rightarrow> (js_error + file_row list) \<times> file_elem list" where
  "forEachLinkClass i [] = (Inr [], [])"
| "forEachLinkClass i (e # es) =
     (case linkName e of
        None \<Rightarrow> (case forEachLinkClass (Suc i) es of (r, es') \<Rightarrow> (r, e # es'))
      | Some Malformed \<Rightarrow> (Inl URIError, e # es)
      | Some (Decoded name) \<Rightarrow>
          (if name = [] \<or> hfcProcessed e
           then (case forEachLinkClass (Suc i) es of (r, es') \<Rightarrow> (r, e # es'))
           else (case forEachLinkClass (Suc i) es of
                   (Inl err, es') \<Rightarrow> (Inl err, e\<lparr>hfcProcessed := True\<rparr> # es')
                 | (Inr rows, es') \<Rightarrow>
                     (Inr (\<lparr>filename = name, fullPath = None, sha256 = None, element = i\<rparr> # rows),
                      e\<lparr>hfcProcessed := True\<rparr> # es'))))"

definition findAllFileRows :: "file_elem list \<Rightarrow> (js_error + file_row list) \<times> file_elem list" where
  "findAllFileRows elems =
     (case forEachBlobLink 0 elems of
        (Inl err, elems1) \<Rightarrow> (Inl err, elems1)
      | (Inr rows, elems1) \<Rightarrow>
          (if length rows = 0 then forEachLinkClass 0 elems1 else (Inr rows, elems1)))"

fun forEachTreeLink :: "nat \<Rightarrow> folder_elem list \<Rightarrow> (js_error + folder_row list) \<times> folder_elem list" where
  "forEachTreeLink i [] = (Inr [], [])"
| "forEachTreeLink i (e # es) =
     (if treePath e = [] then (case forEachTreeLink (Suc i) es of (r, es') \<Rightarrow> (r, e # es'))
      else (case treeName e of
              Malformed \<Rightarrow> (Inl URIError, e # es)
            | Decoded name \<Rightarrow>
                (if hfcFolderProcessed e
                 then (case forEachTreeLink (Suc i) es of (r, es') \<Rightarrow> (r, e # es'))
                 else (case forEachTreeLink (Suc i) es of
                         (Inl err, es') \<Rightarrow> (Inl err, e\<lparr>hfcFolderProcessed := True\<rparr> # es')
                       | (Inr folders, es') \<Rightarrow>
                           (Inr (\<lparr>fr_folderName = name, fr_folderPath = treePath e,
                                  fr_element = i\<rparr> # folders),
                            e\<lparr>hfcFolderProcessed := True\<rparr> # es')))))"

definition findAllFolderRows :: "folder_elem list \<Rightarrow> (js_error + folder_row list) \<times> folder_elem list" where
  "findAllFolderRows elems = forEachTreeLink 0 elems"

section \<open>Icons\<close>

text \<open>
  \<open>updateFileIcon\<close> removes the icons of the row and puts one icon of the given status
  into its link. The script calls it on file rows and on folder rows alike.
\<close>

definition updateFileIcon :: "nat \<Rightarrow> verdict \<Rightarrow> file_elem list \<Rightarrow> file_elem list" where
  "updateFileIcon i status elems =
     (if i < length elems then elems[i := (elems ! i)\<lparr>hfcIcon := Some status\<rparr>] else elems)"

definition updateFolderIcon :: "nat \<Rightarrow> verdict \<Rightarrow> folder_elem list \<Rightarrow> folder_elem list" where
  "updateFolderIcon i status elems =
     (if i < length elems then elems[i := (elems ! i)\<lparr>hfcFolderIcon := Some status\<rparr>] else elems)"

section \<open>Repo context\<close>

fun indexOf :: "'a \<Rightarrow> 'a list \<Rightarrow> nat option" where
  "indexOf x [] = None"
| "indexOf x (y # ys) = (if y = x then Some 0 else map_option Suc (indexOf x ys))"

definition getRepoInfoFromUrl :: "string \<Rightarrow> string \<Rightarrow> repo_info option" where
  "getRepoInfoFromUrl path location_href =
     (let parts = filter (\<lambda>p. p \<noteq> []) (split_str (CHR ''/'') path);
          typeAndStart =
            (if take 1 parts = [''datasets''] then (''dataset'', 1)
             else if take 1 parts = [''spaces''] then (''space'', 1)
             else (''model'', 0::nat));
          startIdx = snd typeAndStart
      in if length parts < startIdx + 2 then None
         else Some \<lparr>repoId = parts ! startIdx @ ''/'' @ parts ! (startIdx + 1),
                    repoType = fst typeAndStart,
                    revision =
                      (case indexOf ''tree'' parts of
                         None \<Rightarrow> ''main''
                       | Some treeIdx \<Rightarrow>
                           (if treeIdx + 1 < length parts \<and> parts ! (treeIdx + 1) \<noteq> []
                            then parts ! (treeIdx + 1) else ''main'')),
                    url = location_href\<rparr>)"

section \<open>The page scan\<close>

datatype scan_result = Skipped | NotConnected | Completed

text \<open>Lines 787-799: the counters are reset, every icon and every processed flag is removed.\<close>

definition resetPass :: "scan_state \<Rightarrow> scan_state" where
  "resetPass s =
     s\<lparr>stats := \<lparr>matches = 0, mismatches = 0, missing = 0, total_count = 0\<rparr>,
       fileElems := map (\<lambda>e. e\<lparr>hfcProcessed := False, hfcIcon := None\<rparr>) (fileElems s),
       folderElems := map (\<lambda>e. e\<lparr>hfcFolderProcessed := False, hfcFolderIcon := None\<rparr>) (folderElems s)\<rparr>"

text \<open>Lines 816-824: the loading icons.\<close>

definition markLoading :: "file_row list \<Rightarrow> folder_row list \<Rightarrow> scan_state \<Rightarrow> scan_state" where
  "markLoading rows folders s =
     s\<lparr>fileElems := fold (\<lambda>row. updateFileIcon (element row) Loading) rows (fileElems s),
       folderElems := fold (\<lambda>folder. updateFolderIcon (fr_element folder) Loading) folders (folderElems s)\<rparr>"

text \<open>Lines 826-842: with folders on the page and nothing cached, the manifest is fetched.\<close>

definition fetchRepoData :: "server \<Rightarrow> folder_row list \<Rightarrow> scan_state \<Rightarrow> scan_state" where
  "fetchRepoData io folders s =
     (if length folders > 0 \<and> repoData s = None
      then (case getRepoInfoFromUrl (pathname s) (href s) of
              None \<Rightarrow> s
            | Some repoInfo \<Rightarrow>
                (case apiCheckRepo io \<lparr>rq_repo_id = repoId repoInfo,
                                        rq_repo_type = repoType repoInfo,
                                        rq_revision = revision repoInfo\<rparr> of
                   Some d \<Rightarrow> s\<lparr>repoData := Some d\<rparr>
                 | None \<Rightarrow> s))
      else s)"

text \<open>\<open>state.repoData && state.repoData.files\<close>\<close>

definition cachedFiles :: "scan_state \<Rightarrow> manifest_entry list option" where
  "cachedFiles s = (case repoData s of None \<Rightarrow> None | Some d \<Rightarrow> files d)"

text \<open>Lines 844-856: the folder icons, from the cached manifest.\<close>

definition updateFolders :: "folder_row list \<Rightarrow> scan_state \<Rightarrow> scan_state" where
  "updateFolders folders s =
     (case cachedFiles s of
        Some allFiles \<Rightarrow>
          s\<lparr>folderElems :=
              fold (\<lambda>folder. updateFolderIcon (fr_element folder)
                      (fs_status (calculateFolderStatus (fr_folderPath folder) allFiles)))
                folders (folderElems s)\<rparr>
      | None \<Rightarrow>
          s\<lparr>folderElems :=
              fold (\<lambda>folder. updateFolderIcon (fr_element folder) Unknown) folders (folderElems s)\<rparr>)"

text \<open>
  Lines 863-886, the body of \<open>rows.map\<close>: a row without a hash takes the hash of the
  manifest entry found for it, when that entry has one. The hash is stored on the row and
  sent in the batch request.
\<close>

definition isRepoFileOf :: "file_row \<Rightarrow> manifest_entry \<Rightarrow> bool" where
  "isRepoFileOf r f =
     (me_path f = fullPath r \<or>
      me_path f = Some (filename r) \<or>
      me_filename f = filename r \<or>
      (case me_path f of
         None \<Rightarrow> False
       | Some p \<Rightarrow> p \<noteq> [] \<and> endsWith p (''/'' @ filename r)))"

definition enrichRow :: "manifest_entry list option \<Rightarrow> file_row \<Rightarrow> file_row" where
  "enrichRow cached r =
     (if \<not> truthy (sha256 r) then
        (case cached of
           None \<Rightarrow> r
         | Some allFiles \<Rightarrow>
             (case find (isRepoFileOf r) allFiles of
                None \<Rightarrow> r
              | Some repoFile \<Rightarrow>
                  (if truthy (me_sha256 repoFile) then r\<lparr>sha256 := me_sha256 repoFile\<rparr> else r)))
      else r)"

definition toBatchFile :: "file_row \<Rightarrow> batch_file" where
  "toBatchFile r = \<lparr>bf_filename = filename r, bf_fullPath = fullPath r, bf_sha256 = sha256 r\<rparr>"

text \<open>Lines 901-912: the entry of the response that decides a row, the hash key first.\<close>

definition lookupRow :: "results_map \<Rightarrow> file_row \<Rightarrow> lookup_entry option" where
  "lookupRow res row =
     (let nameKey = toLowerCase (trim (filename row));
          hashKey = toLowerCase (case sha256 row of None \<Rightarrow> [] | Some h \<Rightarrow> h);
          result = (if hashKey \<noteq> [] then res hashKey else None)
      in if result = None then res nameKey else result)"

text \<open>Lines 916-927: the status that the entry found for a row puts on the row.\<close>

definition rowVerdict :: "lookup_entry option \<Rightarrow> verdict" where
  "rowVerdict result =
     (case result of
        None \<Rightarrow> Missing
      | Some e \<Rightarrow> if found e then (if mismatch e then Mismatch else Match) else Missing)"

text \<open>Lines 900-928, the body of \<open>rows.forEach\<close>: the icon and the counter of one row.\<close>

definition processRow :: "results_map \<Rightarrow> file_row \<Rightarrow> scan_state \<Rightarrow> scan_state" where
  "processRow res row s =
     (case lookupRow res row of
        Some result \<Rightarrow>
          (if found result then
             (if mismatch result
              then s\<lparr>fileElems := updateFileIcon (element row) Mismatch (fileElems s),
                     stats := (stats s)\<lparr>mismatches := mismatches (stats s) + 1\<rparr>\<rparr>
              else s\<lparr>fileElems := updateFileIcon (element row) Match (fileElems s),
                     stats := (stats s)\<lparr>matches := matches (stats s) + 1\<rparr>\<rparr>)
           else s\<lparr>fileElems := updateFileIcon (element row) Missing (fileElems s),
                  stats := (stats s)\<lparr>missing := missing (stats s) + 1\<rparr>\<rparr>)
      | None \<Rightarrow>
          s\<lparr>fileElems := updateFileIcon (element row) Missing (fileElems s),
            stats := (stats s)\<lparr>missing := missing (stats s) + 1\<rparr>\<rparr>)"

text \<open>Lines 858-930: the files of the page.\<close>

definition checkRows :: "server \<Rightarrow> file_row list \<Rightarrow> scan_state \<Rightarrow> scan_state" where
  "checkRows io rows s =
     (if length rows > 0 then
        (let s1 = s\<lparr>stats := (stats s)\<lparr>total_count := length rows\<rparr>\<rparr>;
             rows1 = map (enrichRow (cachedFiles s1)) rows
         in case checkFiles io (map toBatchFile rows1) s1 of
              None \<Rightarrow>
                s1\<lparr>fileElems := fold (\<lambda>row. updateFileIcon (element row) Unknown) rows1 (fileElems s1)\<rparr>
            | Some res \<Rightarrow> fold (processRow res) rows1 s1)
      else s)"

text \<open>
  The \<open>try\<close> block of \<open>scanCurrentPage\<close>; \<open>Inl\<close> is an exception that leaves it.
  The block is taken as one step, from the state in which it starts: what other handlers do
  while it waits for a request is not part of it.
\<close>

definition scanBody :: "server \<Rightarrow> scan_state \<Rightarrow> (js_error + scan_result) \<times> scan_state" where
  "scanBody io s0 =
     (let s1 = snd (checkServerStatus io (resetPass s0))
      in if \<not> connected s1 then (Inr NotConnected, s1)
         else (case findAllFileRows (fileElems s1) of
                 (Inl err, fes) \<Rightarrow> (Inl err, s1\<lparr>fileElems := fes\<rparr>)
               | (Inr rows, fes) \<Rightarrow>
                   (case findAllFolderRows (folderElems s1) of
                      (Inl err, des) \<Rightarrow> (Inl err, s1\<lparr>fileElems := fes, folderElems := des\<rparr>)
                    | (Inr folders, des) \<Rightarrow>
                        (Inr Completed,
                         checkRows io rows
                           (updateFolders folders
                              (fetchRepoData io folders
                                 (markLoading rows folders
                                    (s1\<lparr>fileElems := fes, folderElems := des\<rparr>))))))))"

text \<open>
  \<open>scanCurrentPage\<close>: the guard on \<open>isScanning\<close>, the \<open>try\<close> block, and the
  \<open>finally\<close> block that clears the flag whether the block returned or threw.
\<close>

definition scanEnter :: "scan_state \<Rightarrow> scan_state option" where
  "scanEnter s = (if isScanning s then None else Some (s\<lparr>isScanning := True\<rparr>))"

definition scanFinally :: "(js_error + scan_result) \<times> scan_state \<Rightarrow> (js_error + scan_result) \<times> scan_state" where
  "scanFinally rs = (fst rs, (snd rs)\<lparr>isScanning := False\<rparr>)"

definition scanCurrentPage :: "server \<Rightarrow> scan_state \<Rightarrow> (js_error + scan_result) \<times> scan_state" where
  "scanCurrentPage io s =
     (case scanEnter s of
        None \<Rightarrow> (Inr Skipped, s)
      | Some s1 \<Rightarrow> scanFinally (scanBody io s1))"

section \<open>Manifest cache and mutation handling\<close>

definition autoFetchRepoData :: "server \<Rightarrow> scan_state \<Rightarrow> scan_state" where
  "autoFetchRepoData io s =
     (if \<not> connected s then s
      else (case getRepoInfoFromUrl (pathname s) (href s) of
              None \<Rightarrow> s
            | Some repoInfo \<Rightarrow>
                (if (case repoData s of None \<Rightarrow> False | Some d \<Rightarrow> repo_id d = repoId repoInfo)
                 then s
                 else (case apiCheckRepo io \<lparr>rq_repo_id = repoId repoInfo,
                                              rq_repo_type = repoType repoInfo,
                                              rq_revision = revision repoInfo\<rparr> of
                         Some result \<Rightarrow>
                           s\<lparr>repoData := Some result,
                             stats := \<lparr>matches = rd_found result, mismatches = rd_mismatch result,
                                       missing = rd_missing result, total_count = total_files result\<rparr>\<rparr>
                       | None \<Rightarrow> s))))"

text \<open>Lines 1292-1301: on a new URL, a manifest of another repo is dropped and fetched anew.\<close>

definition onUrlChange :: "server \<Rightarrow> scan_state \<Rightarrow> scan_state" where
  "onUrlChange io s =
     (if Some (href s) \<noteq> lastUrl s then
        (let s1 = s\<lparr>lastUrl := Some (href s)\<rparr>
         in case getRepoInfoFromUrl (pathname s1) (href s1) of
              None \<Rightarrow> s1
            | Some repoInfo \<Rightarrow>
                (case repoData s1 of
                   None \<Rightarrow> s1
                 | Some d \<Rightarrow>
                     (if repo_id d \<noteq> repoId repoInfo
                      then autoFetchRepoData io (s1\<lparr>repoData := None\<rparr>)
                      else s1)))
      else s)"

datatype tick_result =
  TickIgnored | TickThrew js_error | NoNewRows | Rescanned "js_error + scan_result"

text \<open>
  Lines 1290-1310, the debounced callback of the mutation observer. The rows it rescans
  for are those that \<open>findAllFileRows\<close> returns and that hold no icon.
\<close>

definition mutationTick :: "server \<Rightarrow> scan_state \<Rightarrow> tick_result \<times> scan_state" where
  "mutationTick io s =
     (if connected s \<and> \<not> isScanning s then
        (let s1 = onUrlChange io s
         in case findAllFileRows (fileElems s1) of
              (Inl err, fes) \<Rightarrow> (TickThrew err, s1\<lparr>fileElems := fes\<rparr>)
            | (Inr rows, fes) \<Rightarrow>
                (let s2 = s1\<lparr>fileElems := fes\<rparr>;
                     unprocessed = filter (\<lambda>r. hfcIcon (fileElems s2 ! element r) = None) rows
                 in if length unprocessed > 0
                    then (case scanCurrentPage io s2 of (r, s3) \<Rightarrow> (Rescanned r, s3))
                    else (NoNewRows, s2)))
      else (TickIgnored, s))"

section \<open>Scheduling\<close>

text \<open>
  The script runs on one thread and a pass is suspended only at its requests. The events
  below are what can happen between two suspensions: \<open>scanCurrentPage\<close> is called (by the
  rescan button, the start-up timer or a mutation tick); the pass in flight runs to the end
  of its \<open>try\<close> block and through \<open>finally\<close>; or some other handler changes the state,
  which none of them does to \<open>isScanning\<close>. The number counts the passes in flight, that
  is, the calls that have set the flag and not yet reached \<open>finally\<close>.
\<close>

datatype event = Trigger | Settle server | Other "scan_state \<Rightarrow> scan_state"

fun step :: "event \<Rightarrow> scan_state \<times> nat \<Rightarrow> scan_state \<times> nat" where
  "step Trigger (s, n) =
     (case scanEnter s of
        None \<Rightarrow> (s, n)
      | Some s1 \<Rightarrow> (s1, Suc n))"
| "step (Settle io) (s, n) =
     (if n = 0 then (s, n) else (snd (scanFinally (scanBody io s)), n - 1))"
| "step (Other f) (s, n) = ((f s)\<lparr>isScanning := isScanning s\<rparr>, n)"

definition run :: "event list \<Rightarrow> scan_state \<times> nat \<Rightarrow> scan_state \<times> nat" where
  "run evs c = fold step evs c"

section \<open>Example pages and servers\<close>

text \<open>
  The concrete inputs on which the results below are evaluated: a server that answers, one
  that is down and one whose batch lookup fails; the manifests of two repositories that
  both have \<open>unet/model.bin\<close>, found locally for the first and missing for the second; and
  three pages of the second repository.
\<close>

definition noStats :: scan_stats where
  "noStats = \<lparr>matches = 0, mismatches = 0, missing = 0, total_count = 0\<rparr>"

definition blobRow :: "string \<Rightarrow> file_elem" where
  "blobRow p = \<lparr>blobPath = Some (Decoded p), linkName = None, hfcProcessed = False, hfcIcon = None\<rparr>"

definition repoA :: repo_data where
  "repoA = \<lparr>repo_id = ''ownerA/repoA'',
            files = Some [\<lparr>me_path = Some ''unet/model.bin'', me_filename = ''model.bin'',
                           me_sha256 = Some ''AB12'', me_status = ''found''\<rparr>],
            rd_found = 1, rd_missing = 0, rd_mismatch = 0, total_files = 1\<rparr>"

definition repoB :: repo_data where
  "repoB = \<lparr>repo_id = ''ownerB/repoB'',
            files = Some [\<lparr>me_path = Some ''unet/model.bin'', me_filename = ''model.bin'',
                           me_sha256 = Some ''CD34'', me_status = ''missing''\<rparr>],
            rd_found = 0, rd_missing = 1, rd_mismatch = 0, total_files = 1\<rparr>"

definition onlineServer :: server where
  "onlineServer =
     \<lparr>apiStatus = Some \<lparr>cache_total_files = 1\<rparr>,
      apiCheckRepo = (\<lambda>rq. if rq_repo_id rq = ''ownerB/repoB'' then Some repoB else Some repoA),
      apiCheckBatch = (\<lambda>fs. Some \<lparr>results = Some Map.empty\<rparr>)\<rparr>"

definition offlineServer :: server where
  "offlineServer = \<lparr>apiStatus = None, apiCheckRepo = (\<lambda>rq. None), apiCheckBatch = (\<lambda>fs. None)\<rparr>"

definition batchDownServer :: server where
  "batchDownServer = onlineServer\<lparr>apiCheckBatch := (\<lambda>fs. None)\<rparr>"

text \<open>
  A page of \<open>ownerB/repoB\<close> with two files and the folder \<open>unet\<close>, reached from a page of
  \<open>ownerA/repoA\<close> whose manifest is still cached: the mutation observer has not yet seen
  the new URL.
\<close>

definition pageOfRepoB :: scan_state where
  "pageOfRepoB =
     \<lparr>connected = True, serverInfo = Some \<lparr>cache_total_files = 1\<rparr>, repoData = Some repoA,
      lastUrl = Some ''https://huggingface.co/ownerA/repoA/tree/main'',
      stats = noStats, isScanning = False,
      pathname = ''/ownerB/repoB/tree/main'',
      href = ''https://huggingface.co/ownerB/repoB/tree/main'',
      fileElems = [blobRow ''a.bin'', blobRow ''b.bin''],
      folderElems = [\<lparr>treePath = ''unet'', treeName = Decoded ''unet'',
                      hfcFolderProcessed = False, hfcFolderIcon = None\<rparr>]\<rparr>"

text \<open>A page after a pass that found \<open>a.bin\<close>, to which the row of \<open>b.bin\<close> has been added.\<close>

definition annotatedPage :: scan_state where
  "annotatedPage =
     \<lparr>connected = True, serverInfo = Some \<lparr>cache_total_files = 1\<rparr>, repoData = None,
      lastUrl = Some ''https://huggingface.co/ownerB/repoB/tree/main'',
      stats = \<lparr>matches = 1, mismatches = 0, missing = 0, total_count = 1\<rparr>, isScanning = False,
      pathname = ''/ownerB/repoB/tree/main'',
      href = ''https://huggingface.co/ownerB/repoB/tree/main'',
      fileElems = [\<lparr>blobPath = Some (Decoded ''a.bin''), linkName = None,
                    hfcProcessed = True, hfcIcon = Some Match\<rparr>,
                   blobRow ''b.bin''],
      folderElems = []\<rparr>"

text \<open>A page whose second link has a path that \<open>decodeURIComponent\<close> rejects.\<close>

definition brokenPage :: scan_state where
  "brokenPage =
     annotatedPage\<lparr>fileElems :=
       [blobRow ''a.bin'',
        \<lparr>blobPath = Some Malformed, linkName = None, hfcProcessed = False, hfcIcon = None\<rparr>]\<rparr>"

definition hashedRow :: file_row where
  "hashedRow = \<lparr>filename = ''Model.bin'', fullPath = Some ''unet/Model.bin'',
                sha256 = Some ''EF56'', element = 0\<rparr>"

definition plainRow :: file_row where
  "plainRow = \<lparr>filename = ''Model.bin '', fullPath = Some ''unet/Model.bin'',
               sha256 = None, element = 1\<rparr>"

definition exampleResults :: results_map where
  "exampleResults =
     [''ef56'' \<mapsto> \<lparr>found = True, mismatch = False, directories = [''checkpoints'']\<rparr>,
      ''model.bin'' \<mapsto> \<lparr>found = True, mismatch = True, directories = [''loras'']\<rparr>]"

section \<open>Helper lemmas\<close>

lemma startsWith_prefix: "startsWith s p = prefix p s"
  unfolding startsWith_def prefix_def
  by (metis append_eq_conv_conj)

lemma length_filter_all: "(length (filter P xs) = length xs) = (\<forall>x\<in>set xs. P x)"
proof (induction xs)
  case Nil
  then show ?case by simp
next
  case (Cons x xs)
  have "length (filter P xs) \<noteq> Suc (length xs)"
    using length_filter_le [of P xs] by linarith
  with Cons show ?case by auto
qed

lemma length_filter_pos: "(0 < length (filter P xs)) = (\<exists>x\<in>set xs. P x)"
  by (simp add: filter_empty_conv)


section \<open>Detection of rows\<close>

text \<open>
  Detection keeps the number of rows and their icons, changes nothing but processed flags,
  and returns only rows that were not flagged, each at its position in the page.
\<close>

lemma forEachBlobLink_length': "forEachBlobLink i es = (r, es') \<Longrightarrow> length es' = length es"
  by (induction es arbitrary: i r es') (auto split: option.splits uri.splits prod.splits sum.splits if_splits)

lemma forEachLinkClass_length': "forEachLinkClass i es = (r, es') \<Longrightarrow> length es' = length es"
  by (induction es arbitrary: i r es') (auto split: option.splits uri.splits prod.splits sum.splits if_splits)

lemma forEachBlobLink_icons': "forEachBlobLink i es = (r, es') \<Longrightarrow> map hfcIcon es' = map hfcIcon es"
  by (induction es arbitrary: i r es') (auto split: option.splits uri.splits prod.splits sum.splits if_splits)


lemma forEachLinkClass_icons': "forEachLinkClass i es = (r, es') \<Longrightarrow> map hfcIcon es' = map hfcIcon es"
  by (induction es arbitrary: i r es') (auto split: option.splits uri.splits prod.splits sum.splits if_splits)


lemma forEachBlobLink_wipe:
  "forEachBlobLink i es = (r, es') \<Longrightarrow>
   map (\<lambda>e. e\<lparr>hfcProcessed := False, hfcIcon := None\<rparr>) es' =
   map (\<lambda>e. e\<lparr>hfcProcessed := False, hfcIcon := None\<rparr>) es"
  by (induction es arbitrary: i r es') (auto split: option.splits uri.splits prod.splits sum.splits if_splits)

lemma forEachLinkClass_wipe:
  "forEachLinkClass i es = (r, es') \<Longrightarrow>
   map (\<lambda>e. e\<lparr>hfcProcessed := False, hfcIcon := None\<rparr>) es' =
   map (\<lambda>e. e\<lparr>hfcProcessed := False, hfcIcon := None\<rparr>) es"
  by (induction es arbitrary: i r es') (auto split: option.splits uri.splits prod.splits sum.splits if_splits)

lemma forEachBlobLink_rows:
  "forEachBlobLink i es = (Inr rows, es') \<Longrightarrow> r \<in> set rows \<Longrightarrow>
     \<exists>j<length es. element r = i + j \<and> \<not> hfcProcessed (es ! j)"
proof (induction es arbitrary: i rows es')
  case Nil
  then show ?case by simp
next
  case (Cons e es)
  obtain res es1 where rec: "forEachBlobLink (Suc i) es = (res, es1)"
    by (cases "forEachBlobLink (Suc i) es")
  have tail: "\<exists>j<length (e # es). element r = i + j \<and> \<not> hfcProcessed ((e # es) ! j)"
    if "res = Inr rows1" and "r \<in> set rows1" for rows1
  proof -
    from Cons.IH [of "Suc i" rows1 es1] rec that
    obtain j where "j < length es" "element r = Suc i + j" "\<not> hfcProcessed (es ! j)"
      by auto
    then have "Suc j < length (e # es) \<and> element r = i + Suc j \<and> \<not> hfcProcessed ((e # es) ! Suc j)"
      by simp
    then show ?thesis by blast
  qed
  show ?case
  proof (cases "\<exists>p. blobPath e = Some (Decoded p) \<and>
      \<not> (lastSegment p = [] \<or> includes_str (lastSegment p) ''..'' \<or> hfcProcessed e)")
    case True
    then obtain p where p: "blobPath e = Some (Decoded p)"
      "\<not> (lastSegment p = [] \<or> includes_str (lastSegment p) ''..'' \<or> hfcProcessed e)"
      by blast
    from Cons.prems(1) p rec obtain rows1 where
      rows1: "res = Inr rows1"
      "rows = \<lparr>filename = lastSegment p, fullPath = Some p, sha256 = None, element = i\<rparr> # rows1"
      by (cases res) auto
    show ?thesis
    proof (cases "r \<in> set rows1")
      case True
      with rows1(1) show ?thesis by (rule tail)
    next
      case False
      with Cons.prems(2) rows1(2) have "element r = i" by auto
      with p have "0 < length (e # es) \<and> element r = i + 0 \<and> \<not> hfcProcessed ((e # es) ! 0)"
        by simp
      then show ?thesis by blast
    qed
  next
    case False
    with Cons.prems(1) rec have "res = Inr rows"
      by (auto split: option.splits uri.splits if_splits)
    then show ?thesis using Cons.prems(2) by (rule tail)
  qed
qed

lemma forEachBlobLink_no_rows:
  "forEachBlobLink i es = (Inr [], es') \<Longrightarrow> es' = es"
  by (induction es arbitrary: i es') (auto split: option.splits uri.splits prod.splits sum.splits if_splits)


lemma forEachLinkClass_rows:
  "forEachLinkClass i es = (Inr rows, es') \<Longrightarrow> r \<in> set rows \<Longrightarrow>
     \<exists>j<length es. element r = i + j \<and> \<not> hfcProcessed (es ! j)"
proof (induction es arbitrary: i rows es')
  case Nil
  then show ?case by simp
next
  case (Cons e es)
  obtain res es1 where rec: "forEachLinkClass (Suc i) es = (res, es1)"
    by (cases "forEachLinkClass (Suc i) es")
  have tail: "\<exists>j<length (e # es). element r = i + j \<and> \<not> hfcProcessed ((e # es) ! j)"
    if "res = Inr rows1" and "r \<in> set rows1" for rows1
  proof -
    from Cons.IH [of "Suc i" rows1 es1] rec that
    obtain j where "j < length es" "element r = Suc i + j" "\<not> hfcProcessed (es ! j)"
      by auto
    then have "Suc j < length (e # es) \<and> element r = i + Suc j \<and> \<not> hfcProcessed ((e # es) ! Suc j)"
      by simp
    then show ?thesis by blast
  qed
  show ?case
  proof (cases "\<exists>n. linkName e = Some (Decoded n) \<and> \<not> (n = [] \<or> hfcProcessed e)")
    case True
    then obtain n where n: "linkName e = Some (Decoded n)" "\<not> (n = [] \<or> hfcProcessed e)"
      by blast
    from Cons.prems(1) n rec obtain rows1 where
      rows1: "res = Inr rows1"
      "rows = \<lparr>filename = n, fullPath = None, sha256 = None, element = i\<rparr> # rows1"
      by (cases res) auto
    show ?thesis
    proof (cases "r \<in> set rows1")
      case True
      with rows1(1) show ?thesis by (rule tail)
    next
      case False
      with Cons.prems(2) rows1(2) have "element r = i" by auto
      with n have "0 < length (e # es) \<and> element r = i + 0 \<and> \<not> hfcProcessed ((e # es) ! 0)"
        by simp
      then show ?thesis by blast
    qed
  next
    case False
    with Cons.prems(1) rec have "res = Inr rows"
      by (auto split: option.splits uri.splits if_splits)
    then show ?thesis using Cons.prems(2) by (rule tail)
  qed
qed

lemma findAllFileRows_cases:
  assumes "findAllFileRows es = (r, es')"
  shows "forEachBlobLink 0 es = (r, es') \<or>
         (forEachBlobLink 0 es = (Inr [], es) \<and> forEachLinkClass 0 es = (r, es'))"
proof -
  obtain res1 es1 where m1: "forEachBlobLink 0 es = (res1, es1)"
    by (cases "forEachBlobLink 0 es")
  show ?thesis
  proof (cases res1)
    case (Inl err)
    with assms m1 show ?thesis unfolding findAllFileRows_def by simp
  next
    case (Inr rows1)
    show ?thesis
    proof (cases "rows1 = []")
      case True
      with m1 Inr have "es1 = es" by (simp add: forEachBlobLink_no_rows)
      with assms m1 Inr True show ?thesis unfolding findAllFileRows_def by simp
    next
      case False
      with assms m1 Inr show ?thesis unfolding findAllFileRows_def by simp
    qed
  qed
qed

lemma findAllFileRows_length: "findAllFileRows es = (r, es') \<Longrightarrow> length es' = length es"
  using findAllFileRows_cases [of es r es'] forEachBlobLink_length' forEachLinkClass_length'
  by blast

lemma findAllFileRows_icons: "findAllFileRows es = (r, es') \<Longrightarrow> map hfcIcon es' = map hfcIcon es"
  using findAllFileRows_cases [of es r es'] forEachBlobLink_icons' forEachLinkClass_icons'
  by blast

lemma findAllFileRows_wipe:
  "findAllFileRows es = (r, es') \<Longrightarrow>
   map (\<lambda>e. e\<lparr>hfcProcessed := False, hfcIcon := None\<rparr>) es' =
   map (\<lambda>e. e\<lparr>hfcProcessed := False, hfcIcon := None\<rparr>) es"
  using findAllFileRows_cases [of es r es'] forEachBlobLink_wipe forEachLinkClass_wipe
  by blast

lemma findAllFileRows_rows:
  assumes "findAllFileRows es = (Inr rows, es')" and "r \<in> set rows"
  shows "element r < length es \<and> \<not> hfcProcessed (es ! element r)"
  using findAllFileRows_cases [OF assms(1)]
    forEachBlobLink_rows [of 0 es rows es' r] forEachLinkClass_rows [of 0 es rows es' r] assms(2)
  by auto

section \<open>Icon updates\<close>

lemma updateFileIcon_length: "length (updateFileIcon i v es) = length es"
  by (simp add: updateFileIcon_def)

lemma updateFileIcon_same: "i < length es \<Longrightarrow> hfcIcon (updateFileIcon i v es ! i) = Some v"
  by (simp add: updateFileIcon_def)

lemma updateFileIcon_keeps:
  "hfcIcon (es ! j) = Some v \<Longrightarrow> hfcIcon (updateFileIcon i v es ! j) = Some v"
  by (cases "i = j") (simp_all add: updateFileIcon_def)

lemma fold_updateFileIcon_length:
  "length (fold (\<lambda>row. updateFileIcon (element row) v) rows es) = length es"
  by (induction rows arbitrary: es) (simp_all add: updateFileIcon_length)

lemma fold_updateFileIcon_keeps:
  "hfcIcon (es ! j) = Some v \<Longrightarrow>
   hfcIcon (fold (\<lambda>row. updateFileIcon (element row) v) rows es ! j) = Some v"
  by (induction rows arbitrary: es) (simp_all add: updateFileIcon_keeps)

lemma fold_updateFileIcon_sets:
  "r \<in> set rows \<Longrightarrow> element r < length es \<Longrightarrow>
   hfcIcon (fold (\<lambda>row. updateFileIcon (element row) v) rows es ! element r) = Some v"
proof (induction rows arbitrary: es)
  case Nil
  then show ?case by simp
next
  case (Cons a rows)
  show ?case
  proof (cases "r = a")
    case True
    with Cons.prems(2) show ?thesis
      by (simp add: fold_updateFileIcon_keeps updateFileIcon_same)
  next
    case False
    with Cons.prems have "r \<in> set rows" by simp
    with Cons.IH [of "updateFileIcon (element a) v es"] Cons.prems(2)
    show ?thesis by (simp add: updateFileIcon_length)
  qed
qed

section \<open>Matching and enrichment of one row\<close>

lemma toLowerCase_Nil_iff: "(toLowerCase h = []) = (h = [])"
  by (simp add: toLowerCase_def)

lemma lookupRow_hash:
  assumes "sha256 row = Some h" and "h \<noteq> []" and "res (toLowerCase h) = Some e"
  shows "lookupRow res row = Some e"
  using assms by (simp add: lookupRow_def Let_def toLowerCase_Nil_iff)

lemma lookupRow_no_hash:
  assumes "\<not> truthy (sha256 row)"
  shows "lookupRow res row = res (toLowerCase (trim (filename row)))"
proof (cases "sha256 row")
  case None
  then show ?thesis by (simp add: lookupRow_def Let_def toLowerCase_def)
next
  case (Some h)
  with assms have "h = []" by simp
  with Some show ?thesis by (simp add: lookupRow_def Let_def toLowerCase_def)
qed

lemma processRow_icon:
  assumes "element row < length (fileElems s)"
  shows "hfcIcon (fileElems (processRow res row s) ! element row) = Some (rowVerdict (lookupRow res row))"
  using assms
  by (simp add: processRow_def rowVerdict_def updateFileIcon_same split: option.split)

lemma processRow_stats:
  "stats (processRow res row s) =
     (case rowVerdict (lookupRow res row) of
        Match \<Rightarrow> (stats s)\<lparr>matches := matches (stats s) + 1\<rparr>
      | Mismatch \<Rightarrow> (stats s)\<lparr>mismatches := mismatches (stats s) + 1\<rparr>
      | _ \<Rightarrow> (stats s)\<lparr>missing := missing (stats s) + 1\<rparr>)"
  by (simp add: processRow_def rowVerdict_def split: option.split)

lemma enrichRow_has_hash: "truthy (sha256 r) \<Longrightarrow> enrichRow cached r = r"
  by (simp add: enrichRow_def)

lemma enrichRow_changed:
  "enrichRow cached r \<noteq> r \<Longrightarrow> truthy (sha256 (enrichRow cached r))"
  by (auto simp: enrichRow_def split: option.splits if_splits)

lemma enrichRow_again: "enrichRow cached (enrichRow cached r) = enrichRow cached r"
proof (cases "enrichRow cached r = r")
  case True
  then show ?thesis by simp
next
  case False
  then show ?thesis by (simp add: enrichRow_changed enrichRow_has_hash)
qed

lemma enrichRow_element: "element (enrichRow c r) = element r"
  by (simp add: enrichRow_def split: option.split)

lemma fold_enriched:
  "fold (\<lambda>row. updateFileIcon (element row) v) (map (enrichRow c) rows) es =
   fold (\<lambda>row. updateFileIcon (element row) v) rows es"
  by (induction rows arbitrary: es) (simp_all add: enrichRow_element)

section \<open>The phases of a pass\<close>

lemma checkServerStatus_snd:
  "snd (checkServerStatus io s) = s\<lparr>connected := (apiStatus io \<noteq> None), serverInfo := apiStatus io\<rparr>"
  by (simp add: checkServerStatus_def split: option.split)

lemma markLoading_fields:
  "stats (markLoading rows folders s) = stats s"
  "connected (markLoading rows folders s) = connected s"
  "length (fileElems (markLoading rows folders s)) = length (fileElems s)"
  by (simp_all add: markLoading_def fold_updateFileIcon_length)

lemma fetchRepoData_fields:
  "stats (fetchRepoData io folders s) = stats s"
  "connected (fetchRepoData io folders s) = connected s"
  "fileElems (fetchRepoData io folders s) = fileElems s"
  by (simp_all add: fetchRepoData_def split: option.split)

lemma updateFolders_fields:
  "stats (updateFolders folders s) = stats s"
  "connected (updateFolders folders s) = connected s"
  "fileElems (updateFolders folders s) = fileElems s"
  by (simp_all add: updateFolders_def split: option.split)

lemma checkRows_failed:
  assumes "\<And>fs. apiCheckBatch io fs = None"
  shows "stats (checkRows io rows s) = (if rows = [] then stats s else (stats s)\<lparr>total_count := length rows\<rparr>)"
    and "rows \<noteq> [] \<Longrightarrow> fileElems (checkRows io rows s) =
          fold (\<lambda>row. updateFileIcon (element row) Unknown) rows (fileElems s)"
  using assms by (simp_all add: checkRows_def checkFiles_def Let_def fold_enriched)

lemma resetPass_fields:
  "stats (resetPass s) = \<lparr>matches = 0, mismatches = 0, missing = 0, total_count = 0\<rparr>"
  "isScanning (resetPass s) = isScanning s"
  "connected (resetPass s) = connected s"
  by (simp_all add: resetPass_def)

lemma resetPass_flag: "resetPass (s\<lparr>isScanning := b\<rparr>) = (resetPass s)\<lparr>isScanning := b\<rparr>"
  by (simp add: resetPass_def)

lemma scanBody_cases:
  "scanBody io s =
     (if apiStatus io = None
      then (Inr NotConnected, (resetPass s)\<lparr>connected := False, serverInfo := None\<rparr>)
      else (case findAllFileRows (fileElems (resetPass s)) of
              (Inl err, fes) \<Rightarrow>
                (Inl err, (resetPass s)\<lparr>connected := True, serverInfo := apiStatus io, fileElems := fes\<rparr>)
            | (Inr rows, fes) \<Rightarrow>
                (case findAllFolderRows (folderElems (resetPass s)) of
                   (Inl err, des) \<Rightarrow>
                     (Inl err, (resetPass s)\<lparr>connected := True, serverInfo := apiStatus io,
                                 fileElems := fes, folderElems := des\<rparr>)
                 | (Inr folders, des) \<Rightarrow>
                     (Inr Completed,
                      checkRows io rows
                        (updateFolders folders
                           (fetchRepoData io folders
                              (markLoading rows folders
                                 ((resetPass s)\<lparr>connected := True, serverInfo := apiStatus io,
                                     fileElems := fes, folderElems := des\<rparr>))))))))"
  by (auto simp: scanBody_def Let_def checkServerStatus_snd split: prod.splits sum.splits)

lemma scanCurrentPage_idle:
  "\<not> isScanning s \<Longrightarrow>
   scanCurrentPage io s = (fst (scanBody io (s\<lparr>isScanning := True\<rparr>)),
                           (snd (scanBody io (s\<lparr>isScanning := True\<rparr>)))\<lparr>isScanning := False\<rparr>)"
  by (simp add: scanCurrentPage_def scanEnter_def scanFinally_def)

lemma autoFetchRepoData_fields:
  "fileElems (autoFetchRepoData io s) = fileElems s"
  "isScanning (autoFetchRepoData io s) = isScanning s"
  by (simp_all add: autoFetchRepoData_def split: option.split)

lemma onUrlChange_fields:
  "fileElems (onUrlChange io s) = fileElems s"
  "isScanning (onUrlChange io s) = isScanning s"
  by (simp_all add: onUrlChange_def Let_def autoFetchRepoData_fields split: option.split)

lemma scanBody_reset: "resetPass a = resetPass b \<Longrightarrow> scanBody io a = scanBody io b"
  by (simp add: scanBody_def)

lemma scanCurrentPage_reset:
  assumes "\<not> isScanning a" and "\<not> isScanning b" and "resetPass a = resetPass b"
  shows "scanCurrentPage io a = scanCurrentPage io b"
proof -
  have "resetPass (a\<lparr>isScanning := True\<rparr>) = resetPass (b\<lparr>isScanning := True\<rparr>)"
    using assms(3) by (simp add: resetPass_flag)
  then have "scanBody io (a\<lparr>isScanning := True\<rparr>) = scanBody io (b\<lparr>isScanning := True\<rparr>)"
    by (rule scanBody_reset)
  with assms(1,2) show ?thesis by (simp add: scanCurrentPage_idle)
qed

lemma resetPass_idem: "resetPass (resetPass s) = resetPass s"
  by (simp add: resetPass_def o_def)

lemma resetPass_fileElems:
  "map (\<lambda>e. e\<lparr>hfcProcessed := False, hfcIcon := None\<rparr>) fes =
   map (\<lambda>e. e\<lparr>hfcProcessed := False, hfcIcon := None\<rparr>) (fileElems s) \<Longrightarrow>
   resetPass (s\<lparr>fileElems := fes\<rparr>) = resetPass s"
  by (simp add: resetPass_def)

lemma step_keeps_count:
  "n = (if isScanning s then 1 else 0) \<Longrightarrow> step ev (s, n) = (s', n') \<Longrightarrow>
   n' = (if isScanning s' then 1 else 0)"
  by (cases ev) (auto simp: scanEnter_def scanFinally_def split: if_splits)

lemma run_keeps_count:
  "n = (if isScanning s then 1 else 0) \<Longrightarrow> run evs (s, n) = (s', n') \<Longrightarrow>
   n' = (if isScanning s' then 1 else 0)"
proof (induction evs arbitrary: s n)
  case Nil
  then show ?case by (auto simp: run_def)
next
  case (Cons ev evs)
  obtain s1 n1 where st: "step ev (s, n) = (s1, n1)"
    by (cases "step ev (s, n)")
  from step_keeps_count [OF Cons.prems(1) st]
  have "n1 = (if isScanning s1 then 1 else 0)" .
  moreover from Cons.prems(2) st have "run evs (s1, n1) = (s', n')"
    by (simp add: run_def)
  ultimately show ?case by (rule Cons.IH)
qed

section \<open>Evaluation\<close>

lemmas ex_defs = noStats_def blobRow_def repoA_def repoB_def onlineServer_def offlineServer_def
  batchDownServer_def pageOfRepoB_def annotatedPage_def brokenPage_def hashedRow_def plainRow_def
  exampleResults_def

lemmas str_defs = lastSegment_def startsWith_def endsWith_def toLowerCase_def toLowerChar_def
  trim_def isWhiteSpace_def

lemmas scan_defs = scanCurrentPage_def scanEnter_def scanFinally_def scanBody_def resetPass_def
  checkServerStatus_def findAllFileRows_def findAllFolderRows_def markLoading_def
  fetchRepoData_def updateFolders_def cachedFiles_def checkRows_def checkFiles_def
  enrichRow_def isRepoFileOf_def toBatchFile_def lookupRow_def processRow_def
  updateFileIcon_def updateFolderIcon_def getRepoInfoFromUrl_def calculateFolderStatus_def
  filePath_def
  mutationTick_def onUrlChange_def autoFetchRepoData_def

section \<open>Matching\<close>

text \<open>
  C1. A row whose hash is present (a non-empty string) and whose lower-cased hash is a key
  of the response with \<open>found = true\<close> and \<open>mismatch = false\<close> gets the icon
  \<open>match\<close>, and the counter of matches goes up by one, whatever the response holds
  under the filename of the row.
\<close>

theorem hash_tier_wins:
  assumes "sha256 row = Some h" and "h \<noteq> []"
    and "res (toLowerCase h) = Some e" and "found e" and "\<not> mismatch e"
    and "element row < length (fileElems s)"
  shows "hfcIcon (fileElems (processRow res row s) ! element row) = Some Match \<and>
         stats (processRow res row s) = (stats s)\<lparr>matches := matches (stats s) + 1\<rparr>"
proof -
  have "lookupRow res row = Some e"
    using assms(1-3) by (rule lookupRow_hash)
  then have v: "rowVerdict (lookupRow res row) = Match"
    using assms(4,5) by (simp add: rowVerdict_def)
  show ?thesis
    using processRow_icon [OF assms(6), of res] processRow_stats [of res row s] v by simp
qed

text \<open>
  The hash of the row is found and identical; its filename is in the response as a
  mismatch. The row is a match.
\<close>

theorem hash_tier_wins_witness:
  "hfcIcon (fileElems (processRow exampleResults hashedRow pageOfRepoB) ! 0) = Some Match \<and>
   matches (stats (processRow exampleResults hashedRow pageOfRepoB)) = 1 \<and>
   exampleResults (toLowerCase (trim (filename hashedRow))) =
     Some \<lparr>found = True, mismatch = True, directories = [''loras'']\<rparr>"
proof -
  have h1: "sha256 hashedRow = Some ''EF56''" by (simp add: hashedRow_def)
  have h2: "''EF56'' \<noteq> []" by simp
  have h3: "exampleResults (toLowerCase ''EF56'') =
      Some \<lparr>found = True, mismatch = False, directories = [''checkpoints'']\<rparr>"
    by (simp add: exampleResults_def str_defs)
  have h4: "found \<lparr>found = True, mismatch = False, directories = [''checkpoints'']\<rparr>" by simp
  have h5: "\<not> mismatch \<lparr>found = True, mismatch = False, directories = [''checkpoints'']\<rparr>" by simp
  have h6: "element hashedRow < length (fileElems pageOfRepoB)"
    by (simp add: ex_defs)
  have h7: "exampleResults (toLowerCase (trim (filename hashedRow))) =
     Some \<lparr>found = True, mismatch = True, directories = [''loras'']\<rparr>"
    by (simp add: hashedRow_def exampleResults_def str_defs)
  from hash_tier_wins [where res = exampleResults, OF h1 h2 h3 h4 h5 h6] h7 show ?thesis
    by (simp add: ex_defs)
qed

text \<open>
  C2. A row without a hash whose trimmed, lower-cased filename is a key of the response
  with \<open>found = true\<close> and \<open>mismatch = true\<close> gets the icon \<open>mismatch\<close>. In
  general, the entry that decides a row gives \<open>match\<close> when it is found without
  mismatch, \<open>mismatch\<close> when it is found with mismatch, and \<open>missing\<close> when it is not
  found or when the response has no entry for the row; each time the counter of that
  verdict goes up by one. For a row without a hash the deciding entry is the one under the
  filename key.
\<close>

theorem filename_tier_verdicts:
  assumes "element row < length (fileElems s)"
  shows "(\<not> truthy (sha256 row) \<and> res (toLowerCase (trim (filename row))) = Some e \<and>
            found e \<and> mismatch e \<longrightarrow>
            hfcIcon (fileElems (processRow res row s) ! element row) = Some Mismatch \<and>
            stats (processRow res row s) = (stats s)\<lparr>mismatches := mismatches (stats s) + 1\<rparr>) \<and>
         (lookupRow res row = Some e \<and> found e \<and> \<not> mismatch e \<longrightarrow>
            hfcIcon (fileElems (processRow res row s) ! element row) = Some Match \<and>
            stats (processRow res row s) = (stats s)\<lparr>matches := matches (stats s) + 1\<rparr>) \<and>
         (lookupRow res row = Some e \<and> found e \<and> mismatch e \<longrightarrow>
            hfcIcon (fileElems (processRow res row s) ! element row) = Some Mismatch \<and>
            stats (processRow res row s) = (stats s)\<lparr>mismatches := mismatches (stats s) + 1\<rparr>) \<and>
         (lookupRow res row = Some e \<and> \<not> found e \<longrightarrow>
            hfcIcon (fileElems (processRow res row s) ! element row) = Some Missing \<and>
            stats (processRow res row s) = (stats s)\<lparr>missing := missing (stats s) + 1\<rparr>) \<and>
         (lookupRow res row = None \<longrightarrow>
            hfcIcon (fileElems (processRow res row s) ! element row) = Some Missing \<and>
            stats (processRow res row s) = (stats s)\<lparr>missing := missing (stats s) + 1\<rparr>) \<and>
         (\<not> truthy (sha256 row) \<longrightarrow>
            lookupRow res row = res (toLowerCase (trim (filename row))))"
proof -
  have fallback: "lookupRow res row = Some e"
    if "\<not> truthy (sha256 row)" and "res (toLowerCase (trim (filename row))) = Some e"
    using that by (simp add: lookupRow_no_hash)
  have found_same: "hfcIcon (fileElems (processRow res row s) ! element row) = Some Match \<and>
      stats (processRow res row s) = (stats s)\<lparr>matches := matches (stats s) + 1\<rparr>"
    if "lookupRow res row = Some e" and "found e" and "\<not> mismatch e"
    using that processRow_icon [OF assms, of res] processRow_stats [of res row s]
    by (simp add: rowVerdict_def)
  have found_other: "hfcIcon (fileElems (processRow res row s) ! element row) = Some Mismatch \<and>
      stats (processRow res row s) = (stats s)\<lparr>mismatches := mismatches (stats s) + 1\<rparr>"
    if "lookupRow res row = Some e" and "found e" and "mismatch e"
    using that processRow_icon [OF assms, of res] processRow_stats [of res row s]
    by (simp add: rowVerdict_def)
  have not_found: "hfcIcon (fileElems (processRow res row s) ! element row) = Some Missing \<and>
      stats (processRow res row s) = (stats s)\<lparr>missing := missing (stats s) + 1\<rparr>"
    if "lookupRow res row = Some e" and "\<not> found e"
    using that processRow_icon [OF assms, of res] processRow_stats [of res row s]
    by (simp add: rowVerdict_def)
  have absent: "hfcIcon (fileElems (processRow res row s) ! element row) = Some Missing \<and>
      stats (processRow res row s) = (stats s)\<lparr>missing := missing (stats s) + 1\<rparr>"
    if "lookupRow res row = None"
    using that processRow_icon [OF assms, of res] processRow_stats [of res row s]
    by (simp add: rowVerdict_def)
  from fallback found_same found_other not_found absent lookupRow_no_hash [of row res]
  show ?thesis by blast
qed

text \<open>
  A row without a hash, whose filename is in the response as found with a mismatch.
\<close>

theorem filename_tier_verdicts_witness:
  "\<not> truthy (sha256 plainRow) \<and>
   toLowerCase (trim (filename plainRow)) = ''model.bin'' \<and>
   hfcIcon (fileElems (processRow exampleResults plainRow pageOfRepoB) ! 1) = Some Mismatch \<and>
   stats (processRow exampleResults plainRow pageOfRepoB) =
     \<lparr>matches = 0, mismatches = 1, missing = 0, total_count = 0\<rparr>"
proof -
  have h: "element plainRow < length (fileElems pageOfRepoB)"
    by (simp add: ex_defs)
  have k: "toLowerCase (trim (filename plainRow)) = ''model.bin''"
    by (simp add: ex_defs str_defs)
  have e: "exampleResults ''model.bin'' =
      Some \<lparr>found = True, mismatch = True, directories = [''loras'']\<rparr>"
    by (simp add: ex_defs)
  from filename_tier_verdicts [OF h, of exampleResults
      "\<lparr>found = True, mismatch = True, directories = [''loras'']\<rparr>"] k e
  show ?thesis by (simp add: ex_defs)
qed

section \<open>Folder aggregation: results\<close>

lemma filePath_present:
  "truthy (me_path f) \<Longrightarrow> me_path f = Some (filePath f)"
  by (cases "me_path f") (simp_all add: filePath_def)

lemma filesInFolder_by_path:
  assumes "\<forall>f\<in>set allFiles. truthy (me_path f)"
  shows "filter (\<lambda>f. startsWith (filePath f) (folderPath @ ''/'') \<or> filePath f = folderPath) allFiles =
         filter (\<lambda>f. case me_path f of
                        None \<Rightarrow> False
                      | Some p \<Rightarrow> p = folderPath \<or> prefix (folderPath @ ''/'') p) allFiles"
proof (rule filter_cong [OF refl])
  fix f assume "f \<in> set allFiles"
  with assms have "me_path f = Some (filePath f)" by (simp add: filePath_present)
  then show "(startsWith (filePath f) (folderPath @ ''/'') \<or> filePath f = folderPath) =
        (case me_path f of None \<Rightarrow> False | Some p \<Rightarrow> p = folderPath \<or> prefix (folderPath @ ''/'') p)"
    by (auto simp: startsWith_prefix)
qed

lemma three_status_cases:
  assumes "sel \<noteq> []"
    and "\<forall>f\<in>set sel. me_status f = ''found'' \<or> me_status f = ''missing'' \<or> me_status f = ''mismatch''"
  shows "(if length (filter (\<lambda>f. me_status f = ''found'') sel) = length sel then Match
          else if length (filter (\<lambda>f. me_status f = ''missing'') sel) = length sel then Missing
          else if length (filter (\<lambda>f. me_status f = ''found'') sel) > 0 \<or>
                  length (filter (\<lambda>f. me_status f = ''mismatch'') sel) > 0 then Partial
          else Missing) =
         (if \<forall>f\<in>set sel. me_status f = ''found'' then Match
          else if \<forall>f\<in>set sel. me_status f = ''missing'' then Missing
          else Partial)"
  unfolding length_filter_all length_filter_pos using assms(2) by auto

text \<open>
  C3. For every folder path and every manifest whose entries have a path and one of the
  statuses \<open>found\<close>, \<open>missing\<close> and \<open>mismatch\<close>, the entries that the folder aggregator
  selects are exactly those whose path equals the folder path or begins with the folder path
  followed by a slash; its counts are the counts of these entries; and its verdict is
  \<open>unknown\<close> when none is selected, \<open>match\<close> when all selected entries are found,
  \<open>missing\<close> when all are missing, and \<open>partial\<close> for any other mix, which is the
  classification as the specification words it.
\<close>

theorem calculateFolderStatus_on_manifest:
  assumes "\<forall>f\<in>set allFiles. truthy (me_path f) \<and>
             (me_status f = ''found'' \<or> me_status f = ''missing'' \<or> me_status f = ''mismatch'')"
  shows "let sel = filter (\<lambda>f. case me_path f of
                                None \<Rightarrow> False
                              | Some p \<Rightarrow> p = folderPath \<or> prefix (folderPath @ ''/'') p) allFiles;
             r = calculateFolderStatus folderPath allFiles
         in filter (\<lambda>f. startsWith (filePath f) (folderPath @ ''/'') \<or> filePath f = folderPath) allFiles = sel \<and>
            fs_total r = length sel \<and>
            fs_found r = length (filter (\<lambda>f. me_status f = ''found'') sel) \<and>
            fs_missing r = length (filter (\<lambda>f. me_status f = ''missing'') sel) \<and>
            fs_mismatch r = length (filter (\<lambda>f. me_status f = ''mismatch'') sel) \<and>
            fs_status r =
              (if sel = [] then Unknown
               else if \<forall>f\<in>set sel. me_status f = ''found'' then Match
               else if \<forall>f\<in>set sel. me_status f = ''missing'' then Missing
               else Partial) \<and>
            fs_status r = specFolderVerdict folderPath allFiles"
proof -
  define sel where
    "sel = filter (\<lambda>f. case me_path f of
                         None \<Rightarrow> False
                       | Some p \<Rightarrow> p = folderPath \<or> prefix (folderPath @ ''/'') p) allFiles"
  have paths: "\<forall>f\<in>set allFiles. truthy (me_path f)"
    using assms by blast
  have code_sel:
    "filter (\<lambda>f. startsWith (filePath f) (folderPath @ ''/'') \<or> filePath f = folderPath) allFiles = sel"
    unfolding sel_def using paths by (rule filesInFolder_by_path)
  have three: "\<forall>f\<in>set sel. me_status f = ''found'' \<or> me_status f = ''missing'' \<or> me_status f = ''mismatch''"
    using assms by (auto simp: sel_def)
  have r: "calculateFolderStatus folderPath allFiles =
      (if length sel = 0
       then \<lparr>fs_status = Unknown, fs_found = 0, fs_missing = 0, fs_mismatch = 0, fs_total = 0\<rparr>
       else \<lparr>fs_status =
               (if length (filter (\<lambda>f. me_status f = ''found'') sel) = length sel then Match
                else if length (filter (\<lambda>f. me_status f = ''missing'') sel) = length sel then Missing
                else if length (filter (\<lambda>f. me_status f = ''found'') sel) > 0 \<or>
                        length (filter (\<lambda>f. me_status f = ''mismatch'') sel) > 0 then Partial
                else Missing),
             fs_found = length (filter (\<lambda>f. me_status f = ''found'') sel),
             fs_missing = length (filter (\<lambda>f. me_status f = ''missing'') sel),
             fs_mismatch = length (filter (\<lambda>f. me_status f = ''mismatch'') sel),
             fs_total = length sel\<rparr>)"
    unfolding calculateFolderStatus_def code_sel Let_def by (rule refl)
  have counts: "fs_total (calculateFolderStatus folderPath allFiles) = length sel \<and>
      fs_found (calculateFolderStatus folderPath allFiles) = length (filter (\<lambda>f. me_status f = ''found'') sel) \<and>
      fs_missing (calculateFolderStatus folderPath allFiles) = length (filter (\<lambda>f. me_status f = ''missing'') sel) \<and>
      fs_mismatch (calculateFolderStatus folderPath allFiles) = length (filter (\<lambda>f. me_status f = ''mismatch'') sel)"
    unfolding r by simp
  have status: "fs_status (calculateFolderStatus folderPath allFiles) =
        (if sel = [] then Unknown
         else if \<forall>f\<in>set sel. me_status f = ''found'' then Match
         else if \<forall>f\<in>set sel. me_status f = ''missing'' then Missing
         else Partial)"
  proof (cases "sel = []")
    case True
    then show ?thesis unfolding r by simp
  next
    case False
    then show ?thesis unfolding r using three_status_cases [OF False three] by simp
  qed
  have spec: "specFolderVerdict folderPath allFiles =
        (if sel = [] then Unknown
         else if \<forall>f\<in>set sel. me_status f = ''found'' then Match
         else if \<forall>f\<in>set sel. me_status f = ''missing'' then Missing
         else Partial)"
    unfolding specFolderVerdict_def Let_def sel_def list_all_iff by (rule refl)
  from code_sel counts status spec show ?thesis
    unfolding Let_def sel_def by simp
qed

text \<open>
  The folders of the claim: two found, two missing, one of each, and no entry under the
  folder (\<open>unet.bin\<close> is not under \<open>unet\<close>); then a folder with two found entries and
  one mismatch among the entries of another folder.
\<close>

theorem calculateFolderStatus_on_manifest_witness:
  "fs_status (calculateFolderStatus ''unet''
      [\<lparr>me_path = Some ''unet/a.bin'', me_filename = ''a.bin'', me_sha256 = None, me_status = ''found''\<rparr>,
       \<lparr>me_path = Some ''unet/b.bin'', me_filename = ''b.bin'', me_sha256 = None, me_status = ''found''\<rparr>]) = Match
   \<and> fs_status (calculateFolderStatus ''unet''
      [\<lparr>me_path = Some ''unet/a.bin'', me_filename = ''a.bin'', me_sha256 = None, me_status = ''missing''\<rparr>,
       \<lparr>me_path = Some ''unet/b.bin'', me_filename = ''b.bin'', me_sha256 = None, me_status = ''missing''\<rparr>]) = Missing
   \<and> fs_status (calculateFolderStatus ''unet''
      [\<lparr>me_path = Some ''unet/a.bin'', me_filename = ''a.bin'', me_sha256 = None, me_status = ''found''\<rparr>,
       \<lparr>me_path = Some ''unet/b.bin'', me_filename = ''b.bin'', me_sha256 = None, me_status = ''missing''\<rparr>]) = Partial
   \<and> fs_status (calculateFolderStatus ''unet''
      [\<lparr>me_path = Some ''vae/a.bin'', me_filename = ''a.bin'', me_sha256 = None, me_status = ''found''\<rparr>,
       \<lparr>me_path = Some ''unet.bin'', me_filename = ''unet.bin'', me_sha256 = None, me_status = ''found''\<rparr>]) = Unknown
   \<and> calculateFolderStatus ''unet''
      [\<lparr>me_path = Some ''unet/a.bin'', me_filename = ''a.bin'', me_sha256 = None, me_status = ''found''\<rparr>,
       \<lparr>me_path = Some ''unet/b.bin'', me_filename = ''b.bin'', me_sha256 = None, me_status = ''mismatch''\<rparr>,
       \<lparr>me_path = Some ''vae/c.bin'', me_filename = ''c.bin'', me_sha256 = None, me_status = ''missing''\<rparr>,
       \<lparr>me_path = Some ''unet/d.bin'', me_filename = ''d.bin'', me_sha256 = None, me_status = ''found''\<rparr>] =
     \<lparr>fs_status = Partial, fs_found = 2, fs_missing = 0, fs_mismatch = 1, fs_total = 3\<rparr>"
proof -
  have wf: "\<forall>f\<in>set fs. truthy (me_path f) \<and>
             (me_status f = ''found'' \<or> me_status f = ''missing'' \<or> me_status f = ''mismatch'')"
    if "fs \<in> {
      [\<lparr>me_path = Some ''unet/a.bin'', me_filename = ''a.bin'', me_sha256 = None, me_status = ''found''\<rparr>,
       \<lparr>me_path = Some ''unet/b.bin'', me_filename = ''b.bin'', me_sha256 = None, me_status = ''found''\<rparr>],
      [\<lparr>me_path = Some ''unet/a.bin'', me_filename = ''a.bin'', me_sha256 = None, me_status = ''missing''\<rparr>,
       \<lparr>me_path = Some ''unet/b.bin'', me_filename = ''b.bin'', me_sha256 = None, me_status = ''missing''\<rparr>],
      [\<lparr>me_path = Some ''unet/a.bin'', me_filename = ''a.bin'', me_sha256 = None, me_status = ''found''\<rparr>,
       \<lparr>me_path = Some ''unet/b.bin'', me_filename = ''b.bin'', me_sha256 = None, me_status = ''missing''\<rparr>],
      [\<lparr>me_path = Some ''vae/a.bin'', me_filename = ''a.bin'', me_sha256 = None, me_status = ''found''\<rparr>,
       \<lparr>me_path = Some ''unet.bin'', me_filename = ''unet.bin'', me_sha256 = None, me_status = ''found''\<rparr>],
      [\<lparr>me_path = Some ''unet/a.bin'', me_filename = ''a.bin'', me_sha256 = None, me_status = ''found''\<rparr>,
       \<lparr>me_path = Some ''unet/b.bin'', me_filename = ''b.bin'', me_sha256 = None, me_status = ''mismatch''\<rparr>,
       \<lparr>me_path = Some ''vae/c.bin'', me_filename = ''c.bin'', me_sha256 = None, me_status = ''missing''\<rparr>,
       \<lparr>me_path = Some ''unet/d.bin'', me_filename = ''d.bin'', me_sha256 = None, me_status = ''found''\<rparr>]}" for fs
    using that by auto
  note t = calculateFolderStatus_on_manifest [OF wf, of _ "''unet''"]
  show ?thesis
    using t [of "[\<lparr>me_path = Some ''unet/a.bin'', me_filename = ''a.bin'', me_sha256 = None, me_status = ''found''\<rparr>,
       \<lparr>me_path = Some ''unet/b.bin'', me_filename = ''b.bin'', me_sha256 = None, me_status = ''found''\<rparr>]"]
      t [of "[\<lparr>me_path = Some ''unet/a.bin'', me_filename = ''a.bin'', me_sha256 = None, me_status = ''missing''\<rparr>,
       \<lparr>me_path = Some ''unet/b.bin'', me_filename = ''b.bin'', me_sha256 = None, me_status = ''missing''\<rparr>]"]
      t [of "[\<lparr>me_path = Some ''unet/a.bin'', me_filename = ''a.bin'', me_sha256 = None, me_status = ''found''\<rparr>,
       \<lparr>me_path = Some ''unet/b.bin'', me_filename = ''b.bin'', me_sha256 = None, me_status = ''missing''\<rparr>]"]
      t [of "[\<lparr>me_path = Some ''vae/a.bin'', me_filename = ''a.bin'', me_sha256 = None, me_status = ''found''\<rparr>,
       \<lparr>me_path = Some ''unet.bin'', me_filename = ''unet.bin'', me_sha256 = None, me_status = ''found''\<rparr>]"]
      t [of "[\<lparr>me_path = Some ''unet/a.bin'', me_filename = ''a.bin'', me_sha256 = None, me_status = ''found''\<rparr>,
       \<lparr>me_path = Some ''unet/b.bin'', me_filename = ''b.bin'', me_sha256 = None, me_status = ''mismatch''\<rparr>,
       \<lparr>me_path = Some ''vae/c.bin'', me_filename = ''c.bin'', me_sha256 = None, me_status = ''missing''\<rparr>,
       \<lparr>me_path = Some ''unet/d.bin'', me_filename = ''d.bin'', me_sha256 = None, me_status = ''found''\<rparr>]"]
    by (simp add: Let_def)
qed

section \<open>Failures of the server\<close>

text \<open>
  C4. When a pass runs to its end and the batch lookup fails, every file row that the pass
  found holds the icon \<open>unknown\<close> afterwards, and the counters of matches, mismatches and
  missing files are zero, as the reset at the start of the pass left them.
\<close>

theorem lookup_failure_is_unknown:
  assumes idle: "\<not> isScanning s"
    and completed: "fst (scanCurrentPage io s) = Inr Completed"
    and fails: "\<And>fs. apiCheckBatch io fs = None"
    and rows: "findAllFileRows (fileElems (resetPass s)) = (Inr rows, fes)"
  shows "(\<forall>r\<in>set rows. hfcIcon (fileElems (snd (scanCurrentPage io s)) ! element r) = Some Unknown) \<and>
         matches (stats (snd (scanCurrentPage io s))) = 0 \<and>
         mismatches (stats (snd (scanCurrentPage io s))) = 0 \<and>
         missing (stats (snd (scanCurrentPage io s))) = 0"
proof -
  let ?s0 = "s\<lparr>isScanning := True\<rparr>"
  have rows0: "findAllFileRows (fileElems (resetPass ?s0)) = (Inr rows, fes)"
    using rows by (simp add: resetPass_def)
  have up: "apiStatus io \<noteq> None"
    using idle completed by (auto simp: scanCurrentPage_idle scanBody_cases split: if_splits)
  obtain fres des where fo: "findAllFolderRows (folderElems (resetPass ?s0)) = (fres, des)"
    by (cases "findAllFolderRows (folderElems (resetPass ?s0))")
  from idle completed up rows0 fo obtain folders where folders: "fres = Inr folders"
    by (cases fres) (auto simp: scanCurrentPage_idle scanBody_cases)
  define base where "base = updateFolders folders (fetchRepoData io folders (markLoading rows folders
      ((resetPass ?s0)\<lparr>connected := True, serverInfo := apiStatus io, fileElems := fes, folderElems := des\<rparr>)))"
  have body: "scanBody io ?s0 = (Inr Completed, checkRows io rows base)"
    using up rows0 fo folders by (simp add: scanBody_cases base_def)
  have final: "snd (scanCurrentPage io s) = (checkRows io rows base)\<lparr>isScanning := False\<rparr>"
    using idle body by (simp add: scanCurrentPage_idle)
  have st: "stats base = \<lparr>matches = 0, mismatches = 0, missing = 0, total_count = 0\<rparr>"
    by (simp add: base_def updateFolders_fields fetchRepoData_fields markLoading_fields resetPass_fields)
  have len: "length (fileElems base) = length fes"
    by (simp add: base_def updateFolders_fields fetchRepoData_fields markLoading_fields)
  have len2: "length fes = length (fileElems (resetPass s))"
    using rows by (rule findAllFileRows_length)
  have icons: "hfcIcon (fileElems (snd (scanCurrentPage io s)) ! element r) = Some Unknown"
    if "r \<in> set rows" for r
  proof -
    from that have ne: "rows \<noteq> []" by auto
    from findAllFileRows_rows [OF rows that] len len2
    have "element r < length (fileElems base)" by simp
    with that show ?thesis
      by (simp add: final checkRows_failed(2) [OF fails ne] fold_updateFileIcon_sets)
  qed
  have counters: "matches (stats (snd (scanCurrentPage io s))) = 0 \<and>
         mismatches (stats (snd (scanCurrentPage io s))) = 0 \<and>
         missing (stats (snd (scanCurrentPage io s))) = 0"
    by (simp add: final checkRows_failed(1) [OF fails] st)
  from icons counters show ?thesis by blast
qed

text \<open>
  The page of two files, on a server whose batch lookup fails.
\<close>

theorem lookup_failure_is_unknown_witness:
  "fst (scanCurrentPage batchDownServer pageOfRepoB) = Inr Completed \<and>
   map hfcIcon (fileElems (snd (scanCurrentPage batchDownServer pageOfRepoB))) =
     [Some Unknown, Some Unknown] \<and>
   missing (stats (snd (scanCurrentPage batchDownServer pageOfRepoB))) = 0"
proof -
  have h1: "\<not> isScanning pageOfRepoB" by (simp add: ex_defs)
  have h2: "fst (scanCurrentPage batchDownServer pageOfRepoB) = Inr Completed"
    by (simp add: ex_defs scan_defs str_defs Let_def)
  have h3: "apiCheckBatch batchDownServer fs = None" for fs
    by (simp add: ex_defs)
  have h4: "findAllFileRows (fileElems (resetPass pageOfRepoB)) =
      (Inr [\<lparr>filename = ''a.bin'', fullPath = Some ''a.bin'', sha256 = None, element = 0\<rparr>,
            \<lparr>filename = ''b.bin'', fullPath = Some ''b.bin'', sha256 = None, element = 1\<rparr>],
       [(blobRow ''a.bin'')\<lparr>hfcProcessed := True\<rparr>, (blobRow ''b.bin'')\<lparr>hfcProcessed := True\<rparr>])"
    by (simp add: ex_defs scan_defs str_defs)
  have len: "length (fileElems (snd (scanCurrentPage batchDownServer pageOfRepoB))) = 2"
    by (simp add: ex_defs scan_defs str_defs Let_def)
  from lookup_failure_is_unknown [OF h1 h2 h3 h4]
  have "hfcIcon (fileElems (snd (scanCurrentPage batchDownServer pageOfRepoB)) ! 0) = Some Unknown"
    and "hfcIcon (fileElems (snd (scanCurrentPage batchDownServer pageOfRepoB)) ! 1) = Some Unknown"
    and "missing (stats (snd (scanCurrentPage batchDownServer pageOfRepoB))) = 0"
    by simp_all
  with h2 len show ?thesis
    by (simp add: list_eq_iff_nth_eq less_Suc_eq numeral_2_eq_2)
qed

text \<open>
  C7, as the code has it. When the status request fails, the pass ends right after it:
  the session is marked as not connected, the counters are zero, and every icon and every
  processed flag has been removed, so that no row holds any icon, neither \<open>loading\<close> nor
  \<open>unknown\<close>.
\<close>

theorem connectivity_failure_clears_page:
  assumes "\<not> isScanning s" and "apiStatus io = None"
  shows "fst (scanCurrentPage io s) = Inr NotConnected \<and>
         snd (scanCurrentPage io s) = (resetPass s)\<lparr>connected := False, serverInfo := None\<rparr> \<and>
         (\<forall>e\<in>set (fileElems (snd (scanCurrentPage io s))). hfcIcon e = None) \<and>
         (\<forall>e\<in>set (folderElems (snd (scanCurrentPage io s))). hfcFolderIcon e = None) \<and>
         \<not> connected (snd (scanCurrentPage io s))"
proof -
  have "scanCurrentPage io s = (Inr NotConnected, (resetPass s)\<lparr>connected := False, serverInfo := None\<rparr>)"
    using assms by (simp add: scanCurrentPage_idle scanBody_cases resetPass_def)
  then show ?thesis by (auto simp: resetPass_def)
qed

theorem connectivity_failure_clears_page_witness:
  "fst (scanCurrentPage offlineServer pageOfRepoB) = Inr NotConnected \<and>
   map hfcIcon (fileElems (snd (scanCurrentPage offlineServer pageOfRepoB))) = [None, None] \<and>
   \<not> connected (snd (scanCurrentPage offlineServer pageOfRepoB))"
proof -
  have h1: "\<not> isScanning pageOfRepoB" by (simp add: ex_defs)
  have h2: "apiStatus offlineServer = None" by (simp add: ex_defs)
  from connectivity_failure_clears_page [OF h1 h2] show ?thesis
    by (simp add: ex_defs resetPass_def)
qed

text \<open>
  The claim as worded fails: on a server that is down, the pass over the page with the
  rows of \<open>a.bin\<close> and \<open>b.bin\<close>, both of which the detection finds, leaves neither
  row marked \<open>unknown\<close>; the icon that \<open>a.bin\<close> had is removed and nothing replaces
  it.
\<close>

theorem connectivity_failure_unknown_counterexample:
  "fst (findAllFileRows (fileElems (resetPass annotatedPage))) =
     Inr [\<lparr>filename = ''a.bin'', fullPath = Some ''a.bin'', sha256 = None, element = 0\<rparr>,
          \<lparr>filename = ''b.bin'', fullPath = Some ''b.bin'', sha256 = None, element = 1\<rparr>] \<and>
   fst (scanCurrentPage offlineServer annotatedPage) = Inr NotConnected \<and>
   hfcIcon (fileElems (snd (scanCurrentPage offlineServer annotatedPage)) ! 0) \<noteq> Some Unknown \<and>
   hfcIcon (fileElems (snd (scanCurrentPage offlineServer annotatedPage)) ! 1) \<noteq> Some Unknown \<and>
   map hfcIcon (fileElems (snd (scanCurrentPage offlineServer annotatedPage))) = [None, None]"
  by (simp add: ex_defs scan_defs str_defs Let_def)

section \<open>Scheduling of passes\<close>

text \<open>
  C5. From a state in which no pass runs, whatever happens, at most one pass is in flight,
  and one is in flight exactly when the flag is set. Two calls in a row start one pass; when
  that pass has ended none is in flight, so the second call was dropped and not queued. A
  call, a mutation tick or a trigger that arrives while the flag is set changes nothing.
\<close>

theorem single_pass_in_flight:
  assumes "\<not> isScanning s"
  shows "snd (run evs (s, 0)) \<le> 1 \<and>
         (isScanning (fst (run evs (s, 0))) \<longleftrightarrow> snd (run evs (s, 0)) = 1) \<and>
         run [Trigger, Trigger] (s, 0) = (s\<lparr>isScanning := True\<rparr>, 1) \<and>
         run [Trigger, Trigger, Settle io] (s, 0) = (snd (scanCurrentPage io s), 0) \<and>
         (isScanning s' \<longrightarrow>
            step Trigger (s', n) = (s', n) \<and>
            scanCurrentPage io s' = (Inr Skipped, s') \<and>
            mutationTick io s' = (TickIgnored, s'))"
proof -
  obtain sf nf where fin: "run evs (s, 0) = (sf, nf)"
    by (cases "run evs (s, 0)")
  from assms have "(0::nat) = (if isScanning s then 1 else 0)" by simp
  from run_keeps_count [OF this fin] have "nf = (if isScanning sf then 1 else 0)" .
  with fin have a: "snd (run evs (s, 0)) \<le> 1 \<and>
         (isScanning (fst (run evs (s, 0))) \<longleftrightarrow> snd (run evs (s, 0)) = 1)"
    by simp
  have b: "run [Trigger, Trigger] (s, 0) = (s\<lparr>isScanning := True\<rparr>, 1)"
    using assms by (simp add: run_def scanEnter_def)
  have c: "run [Trigger, Trigger, Settle io] (s, 0) = (snd (scanCurrentPage io s), 0)"
    using assms by (simp add: run_def scanEnter_def scanCurrentPage_def)
  have d: "isScanning s' \<longrightarrow>
            step Trigger (s', n) = (s', n) \<and>
            scanCurrentPage io s' = (Inr Skipped, s') \<and>
            mutationTick io s' = (TickIgnored, s')"
    by (simp add: scanEnter_def scanCurrentPage_def mutationTick_def)
  from a b c d show ?thesis by blast
qed

theorem single_pass_in_flight_witness:
  "\<not> isScanning pageOfRepoB \<and>
   snd (run [Trigger, Trigger] (pageOfRepoB, 0)) = 1 \<and>
   snd (run [Trigger, Trigger, Settle onlineServer, Trigger] (pageOfRepoB, 0)) = 1 \<and>
   snd (run [Trigger, Trigger, Settle onlineServer] (pageOfRepoB, 0)) = 0 \<and>
   scanCurrentPage onlineServer (pageOfRepoB\<lparr>isScanning := True\<rparr>) =
     (Inr Skipped, pageOfRepoB\<lparr>isScanning := True\<rparr>)"
proof -
  have h: "\<not> isScanning pageOfRepoB" by (simp add: ex_defs)
  have t: "isScanning (pageOfRepoB\<lparr>isScanning := True\<rparr>)" by simp
  have r1: "snd (run [Trigger, Trigger, Settle onlineServer, Trigger] (pageOfRepoB, 0)) = 1"
    using h by (simp add: run_def scanEnter_def scanFinally_def)
  from single_pass_in_flight [OF h, of "[Trigger, Trigger]" onlineServer
      "pageOfRepoB\<lparr>isScanning := True\<rparr>" 0] h t r1
  show ?thesis by simp
qed

text \<open>
  C10. A call of \<open>scanCurrentPage\<close> that finds the flag clear returns with the flag
  clear, whether the pass ran to its end, stopped early or threw; so neither that call nor
  the next one is skipped.
\<close>

theorem guard_always_released:
  assumes "\<not> isScanning s"
  shows "\<not> isScanning (snd (scanCurrentPage io s)) \<and>
         fst (scanCurrentPage io s) \<noteq> Inr Skipped \<and>
         fst (scanCurrentPage io2 (snd (scanCurrentPage io s))) \<noteq> Inr Skipped"
proof -
  have rel: "\<not> isScanning (snd (scanCurrentPage io s))"
    using assms by (simp add: scanCurrentPage_def scanEnter_def scanFinally_def)
  have ran: "fst (scanCurrentPage io t) \<noteq> Inr Skipped" if "\<not> isScanning t" for io t
    using that
    by (auto simp: scanCurrentPage_idle scanBody_cases split: prod.splits sum.splits)
  from rel ran [OF assms] ran [OF rel] show ?thesis by blast
qed

text \<open>
  On the page with the malformed link the pass throws \<open>URIError\<close>, on the server that
  is down it stops early; both times the flag is clear afterwards and the next pass runs.
\<close>

theorem guard_always_released_witness:
  "fst (scanCurrentPage onlineServer brokenPage) = Inl URIError \<and>
   \<not> isScanning (snd (scanCurrentPage onlineServer brokenPage)) \<and>
   fst (scanCurrentPage offlineServer brokenPage) = Inr NotConnected \<and>
   \<not> isScanning (snd (scanCurrentPage offlineServer brokenPage)) \<and>
   fst (scanCurrentPage offlineServer (snd (scanCurrentPage onlineServer brokenPage))) = Inr NotConnected"
proof -
  have h: "\<not> isScanning brokenPage" by (simp add: ex_defs)
  have a: "fst (scanCurrentPage onlineServer brokenPage) = Inl URIError"
    by (simp add: ex_defs scan_defs str_defs Let_def)
  have b: "fst (scanCurrentPage offlineServer brokenPage) = Inr NotConnected"
    by (simp add: ex_defs scan_defs str_defs Let_def)
  have c: "fst (scanCurrentPage offlineServer (snd (scanCurrentPage onlineServer brokenPage))) = Inr NotConnected"
    by (simp add: ex_defs scan_defs str_defs Let_def)
  from guard_always_released [OF h, of onlineServer offlineServer]
    guard_always_released [OF h, of offlineServer offlineServer] a b c
  show ?thesis by simp
qed

text \<open>
  C8, as the code has it. The mutation tick starts a pass only when the session is
  connected, no pass runs and some file row that is not flagged as processed holds no icon.
  The pass it starts is a full pass: its result and the state it leaves are those of a pass
  over the page with every icon, every processed flag and the counters wiped, so the rows
  that were annotated before are resolved and counted again like the new ones.
\<close>

theorem mutation_pass_is_full_pass:
  assumes "fst (mutationTick io s) = Rescanned r"
  shows "connected s \<and> \<not> isScanning s \<and>
         (\<exists>e\<in>set (fileElems s). \<not> hfcProcessed e \<and> hfcIcon e = None) \<and>
         r = fst (scanCurrentPage io (resetPass (onUrlChange io s))) \<and>
         snd (mutationTick io s) = snd (scanCurrentPage io (resetPass (onUrlChange io s)))"
proof -
  have guard: "connected s \<and> \<not> isScanning s"
    using assms by (auto simp: mutationTick_def split: if_splits)
  define s1 where "s1 = onUrlChange io s"
  obtain res fes where det: "findAllFileRows (fileElems s1) = (res, fes)"
    by (cases "findAllFileRows (fileElems s1)")
  from assms guard det obtain rows where rows: "res = Inr rows"
    by (cases res) (auto simp: mutationTick_def Let_def s1_def)
  define s2 where "s2 = s1\<lparr>fileElems := fes\<rparr>"
  have new: "filter (\<lambda>r. hfcIcon (fes ! element r) = None) rows \<noteq> []"
    using assms guard det rows
    by (auto simp: mutationTick_def Let_def s1_def split: if_splits prod.splits)
  then obtain x where x: "x \<in> set rows" "hfcIcon (fes ! element x) = None"
    by (auto simp: filter_empty_conv)
  have tick: "mutationTick io s = (Rescanned (fst (scanCurrentPage io s2)), snd (scanCurrentPage io s2))"
    using guard det rows new
    by (simp add: mutationTick_def Let_def s1_def s2_def split: prod.splits)
  have idle1: "\<not> isScanning s1" and elems1: "fileElems s1 = fileElems s"
    using guard by (simp_all add: s1_def onUrlChange_fields)
  from findAllFileRows_rows [OF det [unfolded rows] x(1)]
  have bound: "element x < length (fileElems s)" and fresh: "\<not> hfcProcessed (fileElems s ! element x)"
    by (simp_all add: elems1)
  have "map hfcIcon fes = map hfcIcon (fileElems s)"
    using findAllFileRows_icons [OF det] by (simp add: elems1)
  then have "map hfcIcon fes ! element x = map hfcIcon (fileElems s) ! element x"
    by simp
  moreover have "length fes = length (fileElems s)"
    using findAllFileRows_length [OF det] by (simp add: elems1)
  ultimately have "hfcIcon (fes ! element x) = hfcIcon (fileElems s ! element x)"
    using bound by simp
  with x(2) have noicon: "hfcIcon (fileElems s ! element x) = None" by simp
  have ex: "\<exists>e\<in>set (fileElems s). \<not> hfcProcessed e \<and> hfcIcon e = None"
    using bound fresh noicon nth_mem by blast
  have "resetPass s2 = resetPass s1"
    unfolding s2_def using findAllFileRows_wipe [OF det] by (rule resetPass_fileElems)
  then have "resetPass s2 = resetPass (resetPass s1)"
    by (simp add: resetPass_idem)
  moreover have "\<not> isScanning s2" "\<not> isScanning (resetPass s1)"
    using idle1 by (simp_all add: s2_def resetPass_fields)
  ultimately have same: "scanCurrentPage io s2 = scanCurrentPage io (resetPass s1)"
    by (intro scanCurrentPage_reset)
  have "r = fst (scanCurrentPage io s2)"
    using assms tick by simp
  with guard ex tick same show ?thesis
    by (simp add: s1_def)
qed

theorem mutation_pass_is_full_pass_witness:
  "fst (mutationTick onlineServer pageOfRepoB) = Rescanned (Inr Completed) \<and>
   connected pageOfRepoB \<and> \<not> isScanning pageOfRepoB \<and>
   snd (mutationTick onlineServer pageOfRepoB) =
     snd (scanCurrentPage onlineServer (resetPass (onUrlChange onlineServer pageOfRepoB)))"
proof -
  have h: "fst (mutationTick onlineServer pageOfRepoB) = Rescanned (Inr Completed)"
    by (simp add: ex_defs scan_defs str_defs Let_def)
  from mutation_pass_is_full_pass [OF h] h show ?thesis by simp
qed

text \<open>
  The claim as worded fails: \<open>a.bin\<close> holds the icon \<open>match\<close> and is flagged when the
  row of \<open>b.bin\<close> appears. The tick starts a pass; with a server that no longer finds
  the file, \<open>a.bin\<close> is counted again and becomes \<open>missing\<close>, and with a server that is
  down its icon is removed.
\<close>

theorem mutation_pass_untouched_counterexample:
  "hfcIcon (fileElems annotatedPage ! 0) = Some Match \<and>
   hfcProcessed (fileElems annotatedPage ! 0) \<and>
   fst (mutationTick onlineServer annotatedPage) = Rescanned (Inr Completed) \<and>
   hfcIcon (fileElems (snd (mutationTick onlineServer annotatedPage)) ! 0) = Some Missing \<and>
   stats (snd (mutationTick onlineServer annotatedPage)) =
     \<lparr>matches = 0, mismatches = 0, missing = 2, total_count = 2\<rparr> \<and>
   fst (mutationTick offlineServer annotatedPage) = Rescanned (Inr NotConnected) \<and>
   hfcIcon (fileElems (snd (mutationTick offlineServer annotatedPage)) ! 0) = None"
  by (simp add: ex_defs scan_defs str_defs Let_def)

section \<open>Enrichment\<close>

text \<open>
  C6. Enriching a row that has a hash changes neither the row nor what is sent for it;
  enriching twice is enriching once; and a hash, once on the row, stays what it is under any
  other manifest.
\<close>

theorem enrichment_idempotent:
  "(truthy (sha256 r) \<longrightarrow> enrichRow cached r = r \<and> toBatchFile (enrichRow cached r) = toBatchFile r) \<and>
   enrichRow cached (enrichRow cached r) = enrichRow cached r \<and>
   (truthy (sha256 (enrichRow cached r)) \<longrightarrow>
      sha256 (enrichRow cached' (enrichRow cached r)) = sha256 (enrichRow cached r))"
  by (simp add: enrichRow_has_hash enrichRow_again)

theorem enrichment_idempotent_witness:
  "truthy (sha256 hashedRow) \<and>
   enrichRow (files repoA) hashedRow = hashedRow \<and>
   sha256 (enrichRow (files repoA) (plainRow\<lparr>filename := ''model.bin''\<rparr>)) = Some ''AB12'' \<and>
   sha256 (enrichRow (files repoB) (enrichRow (files repoA) (plainRow\<lparr>filename := ''model.bin''\<rparr>))) = Some ''AB12''"
proof -
  have h: "truthy (sha256 hashedRow)" by (simp add: hashedRow_def)
  have e: "sha256 (enrichRow (files repoA) (plainRow\<lparr>filename := ''model.bin''\<rparr>)) = Some ''AB12''"
    by (simp add: enrichRow_def isRepoFileOf_def plainRow_def repoA_def)
  from enrichment_idempotent [of hashedRow "files repoA"]
    enrichment_idempotent [of "plainRow\<lparr>filename := ''model.bin''\<rparr>" "files repoA" "files repoB"] h e
  show ?thesis by simp
qed

section \<open>The cached manifest after a change of repository\<close>

text \<open>
  C9. The page is one of \<open>ownerB/repoB\<close>, the cached manifest is that of
  \<open>ownerA/repoA\<close>. A pass started by the mutation tick drops the manifest, fetches that of
  \<open>ownerB/repoB\<close> and shows the folder \<open>unet\<close> as missing. A pass started directly, as
  the rescan button does, keeps the manifest of \<open>ownerA/repoA\<close> and shows the folder as
  a match.
\<close>

theorem stale_manifest_classifies_folder:
  "map_option repoId (getRepoInfoFromUrl (pathname pageOfRepoB) (href pageOfRepoB)) =
     Some ''ownerB/repoB'' \<and>
   map_option repo_id (repoData pageOfRepoB) = Some ''ownerA/repoA'' \<and>
   fst (scanCurrentPage onlineServer pageOfRepoB) = Inr Completed \<and>
   map_option repo_id (repoData (snd (scanCurrentPage onlineServer pageOfRepoB))) =
     Some ''ownerA/repoA'' \<and>
   map hfcFolderIcon (folderElems (snd (scanCurrentPage onlineServer pageOfRepoB))) =
     [Some Match] \<and>
   fst (mutationTick onlineServer pageOfRepoB) = Rescanned (Inr Completed) \<and>
   map_option repo_id (repoData (snd (mutationTick onlineServer pageOfRepoB))) =
     Some ''ownerB/repoB'' \<and>
   map hfcFolderIcon (folderElems (snd (mutationTick onlineServer pageOfRepoB))) =
     [Some Missing]"
  by (simp add: ex_defs scan_defs str_defs Let_def)


end
